theory Spec2Isabelle
  imports Complex_Main
begin

section \<open>HyDE with Chroma and OpenAI: the notebook's helper functions\<close>

text \<open>
  The notebook \<^verbatim>\<open>examples/vector_databases/chroma/hyde-with-chroma-and-openai.ipynb\<close>
  defines a handful of Python helpers around two external services: a chat-completion API
  and a vector store. The helpers are embedded below as HOL functions, in the order of the
  notebook's cells. Python exceptions are values of \<open>error\<close>; a function that can raise
  returns \<open>error + 'a\<close>, with \<open>Inl\<close> for the exception.
\<close>

datatype error = AssertionError | IndexError | KeyError

subsection \<open>Python built-ins used by the notebook\<close>

definition newline :: string where
  "newline = [CHR 0x0A]"

definition tab :: string where
  "tab = [CHR 0x09]"

text \<open>\<^verbatim>\<open>sep.join(xs)\<close> on a list of strings.\<close>

fun join :: "string \<Rightarrow> string list \<Rightarrow> string" where
  "join sep [] = []"
| "join sep [x] = x"
| "join sep (x # y # ys) = x @ sep @ join sep (y # ys)"

text \<open>
  \<^verbatim>\<open>s.strip(chars)\<close>: the longest prefix and the longest suffix made of characters of
  \<open>chars\<close> are removed.
\<close>

definition strip :: "string \<Rightarrow> string \<Rightarrow> string" where
  "strip s chars =
     rev (dropWhile (\<lambda>c. c \<in> set chars) (rev (dropWhile (\<lambda>c. c \<in> set chars) s)))"

text \<open>\<^verbatim>\<open>str(n)\<close> on an integer: its decimal digits, with a minus sign when negative.\<close>

function digits :: "nat \<Rightarrow> string" where
  "digits n =
     (if n < 10 then [''0123456789'' ! n]
      else digits (n div 10) @ [''0123456789'' ! (n mod 10)])"
  by pat_completeness auto
termination
  by (relation "measure (\<lambda>n. n)") auto

declare digits.simps [simp del]

definition str :: "int \<Rightarrow> string" where
  "str n = (if n < 0 then ''-'' @ digits (nat (- n)) else digits (nat n))"

text \<open>
  A Python float, as far as comparisons see it: a finite value (both zeros are \<open>Num 0\<close>),
  one of the two infinities, or NaN. The comparisons are those of IEEE 754: every
  comparison with NaN is false, also \<^verbatim>\<open>nan <= nan\<close>.
\<close>

datatype pyfloat = Num real | PosInf | NegInf | NaN

instantiation pyfloat :: ord
begin

fun less_pyfloat :: "pyfloat \<Rightarrow> pyfloat \<Rightarrow> bool" where
  "less_pyfloat NaN b = False"
| "less_pyfloat a NaN = False"
| "less_pyfloat PosInf b = False"
| "less_pyfloat a NegInf = False"
| "less_pyfloat NegInf b = True"
| "less_pyfloat a PosInf = True"
| "less_pyfloat (Num x) (Num y) = (x < y)"

definition less_eq_pyfloat :: "pyfloat \<Rightarrow> pyfloat \<Rightarrow> bool" where
  "less_eq_pyfloat a b \<longleftrightarrow> a < b \<or> (a = b \<and> a \<noteq> NaN)"

instance ..

end

text \<open>\<^verbatim>\<open>xs[0]\<close> on a list: IndexError when the list is empty.\<close>

definition first_item :: "'a list \<Rightarrow> error + 'a" where
  "first_item xs = (if xs = [] then Inl IndexError else Inr (hd xs))"

text \<open>
  \<^verbatim>\<open>xs.pop(i)\<close> with \<open>0 \<le> i\<close>: removes the element at index \<open>i\<close>, raising IndexError
  when \<open>i\<close> is out of range. The popped element is discarded by every caller below, so
  only the remaining list is returned.
\<close>

definition pop :: "'a list \<Rightarrow> nat \<Rightarrow> error + 'a list" where
  "pop xs i = (if i < length xs then Inr (take i xs @ drop (Suc i) xs) else Inl IndexError)"

text \<open>
  A dictionary whose iteration order is observed is an association list in insertion
  order. \<^verbatim>\<open>d[k]\<close> raises KeyError on a missing key; \<^verbatim>\<open>d[k] = v\<close> replaces the value of
  a present key in place and appends a new key at the end.
\<close>

definition getitem :: "('k \<times> 'v) list \<Rightarrow> 'k \<Rightarrow> error + 'v" where
  "getitem d k = (case map_of d k of None \<Rightarrow> Inl KeyError | Some v \<Rightarrow> Inr v)"

fun setitem :: "('k \<times> 'v) list \<Rightarrow> 'k \<Rightarrow> 'v \<Rightarrow> ('k \<times> 'v) list" where
  "setitem [] k v = [(k, v)]"
| "setitem ((k', v') # d) k v = (if k' = k then (k, v) # d else (k', v') # setitem d k v)"

subsection \<open>The chat-completion API\<close>

text \<open>
  \<^verbatim>\<open>client.chat.completions.create(model=..., messages=..., max_tokens=...)\<close> is a call to
  an external service. The service is a parameter \<open>llm\<close> of every function that calls
  it: an oracle from the request to the text \<^verbatim>\<open>response.choices[0].message.content\<close>. The
  requests sent so far are kept in a log, so that a theorem can say which calls were
  made.
\<close>

record message =
  role :: string
  content :: string

record chat_request =
  model :: string
  messages :: "message list"
  max_tokens :: "nat option"

type_synonym chat_api = "chat_request \<Rightarrow> string"

definition create :: "chat_api \<Rightarrow> chat_request \<Rightarrow> chat_request list \<Rightarrow> string \<times> chat_request list" where
  "create llm request sent = (llm request, sent @ [request])"

definition OPENAI_MODEL :: string where
  "OPENAI_MODEL = ''gpt-4o''"

subsection \<open>Assessing claims without context\<close>

definition build_prompt :: "string \<Rightarrow> message list" where
  \<open>build_prompt claim =
    [\<lparr>role = ''system'', content =
       join newline
       [''I will ask you to assess a scientific claim. Output only the text 'True' if the'' @
          '' claim is true, 'False' if the claim is false, or 'NEE' if there's not enough'' @
          '' evidence.'']\<rparr>,
     \<lparr>role = ''user'', content =
       join newline
       ['''',
        ''Example:'',
        '''',
        ''Claim:'',
        ''0-dimensional biomaterials show inductive properties.'',
        '''',
        ''Assessment:'',
        ''False'',
        '''',
        ''Claim:'',
        ''1/2000 in UK have abnormal PrP positivity.'',
        '''',
        ''Assessment:'',
        ''True'',
        '''',
        ''Claim:'',
        ''Aspirin inhibits the production of PGE2.'',
        '''',
        ''Assessment:'',
        ''False'',
        '''',
        ''End of examples. Assess the following claim:'',
        '''',
        ''Claim:'',
        claim,
        '''',
        ''Assessment:'',
        '''']\<rparr>]\<close>

text \<open>
  \<^verbatim>\<open>
  def assess_claims(claims):
      responses = []
      for claim in claims:
          response = client.chat.completions.create(
              model=OPENAI_MODEL, messages=build_prompt(claim), max_tokens=3)
          responses.append(response.choices[0].message.content.strip('., '))
      return responses
  \<close>
  The loop carries \<open>responses\<close> and the log of requests.
\<close>

fun assess_claims_loop ::
  "chat_api \<Rightarrow> string list \<Rightarrow> string list \<times> chat_request list
     \<Rightarrow> string list \<times> chat_request list" where
  "assess_claims_loop llm [] (responses, sent) = (responses, sent)"
| "assess_claims_loop llm (claim # claims) (responses, sent) =
     (case create llm
             \<lparr>model = OPENAI_MODEL, messages = build_prompt claim, max_tokens = Some 3\<rparr> sent of
        (response, sent') \<Rightarrow>
          assess_claims_loop llm claims (responses @ [strip response ''., ''], sent'))"

definition assess_claims ::
  "chat_api \<Rightarrow> string list \<Rightarrow> chat_request list \<Rightarrow> string list \<times> chat_request list" where
  "assess_claims llm claims sent = assess_claims_loop llm claims ([], sent)"

subsection \<open>Ground truth from the dataset's evidence\<close>

text \<open>
  One evidence dictionary of the claims dataset maps a document id to the list of that
  document's sentence annotations, each with its sentence numbers and a label. The code
  takes the first value of the dictionary, in insertion order.
\<close>

record annotation =
  sentences :: "nat list"
  label :: string

type_synonym evidence = "(string \<times> annotation list) list"

text \<open>\<^verbatim>\<open>list(e.values())\<close>\<close>

definition values_list :: "('k \<times> 'v) list \<Rightarrow> 'v list" where
  "values_list e = map snd e"

fun get_groundtruth_loop :: "evidence list \<Rightarrow> string list \<Rightarrow> error + string list" where
  "get_groundtruth_loop [] groundtruth = Inr groundtruth"
| "get_groundtruth_loop (e # evidence) groundtruth =
     (if length e = 0 then get_groundtruth_loop evidence (groundtruth @ [''NEE''])
      else
        (case first_item (values_list e) of Inl err \<Rightarrow> Inl err | Inr annotations \<Rightarrow>
         (case first_item annotations of Inl err \<Rightarrow> Inl err | Inr a \<Rightarrow>
            if label a = ''SUPPORT''
            then get_groundtruth_loop evidence (groundtruth @ [''True''])
            else get_groundtruth_loop evidence (groundtruth @ [''False'']))))"

definition get_groundtruth :: "evidence list \<Rightarrow> error + string list" where
  "get_groundtruth evidence = get_groundtruth_loop evidence []"

subsection \<open>The confusion matrix\<close>

type_synonym confusion = "(string \<times> (string \<times> int) list) list"

definition initial_confusion :: confusion where
  "initial_confusion =
     [(''True'', [(''True'', 0), (''False'', 0), (''NEE'', 0)]),
      (''False'', [(''True'', 0), (''False'', 0), (''NEE'', 0)]),
      (''NEE'', [(''True'', 0), (''False'', 0), (''NEE'', 0)])]"

text \<open>\<^verbatim>\<open>confusion[i][g] += 1\<close>: both look-ups can raise KeyError; the row is updated in place.\<close>

definition increment :: "confusion \<Rightarrow> string \<Rightarrow> string \<Rightarrow> error + confusion" where
  "increment confusion i g =
     (case getitem confusion i of Inl e \<Rightarrow> Inl e | Inr row \<Rightarrow>
      (case getitem row g of Inl e \<Rightarrow> Inl e | Inr n \<Rightarrow>
         Inr (setitem confusion i (setitem row g (n + 1)))))"

text \<open>\<^verbatim>\<open>for i, g in zip(inferred, groundtruth): confusion[i][g] += 1\<close>\<close>

fun tally :: "confusion \<Rightarrow> (string \<times> string) list \<Rightarrow> error + confusion" where
  "tally confusion [] = Inr confusion"
| "tally confusion ((i, g) # rest) =
     (case increment confusion i g of Inl e \<Rightarrow> Inl e | Inr confusion' \<Rightarrow> tally confusion' rest)"

text \<open>
  The pretty-printer: a header of two lines, then one line per row of the table, every
  cell followed by a tab. The text is what the call writes to standard output.
\<close>

definition print_confusion :: "confusion \<Rightarrow> string" where
  "print_confusion confusion =
     tab @ ''Groundtruth'' @ newline @
     tab @ ''True'' @ tab @ ''False'' @ tab @ ''NEE'' @ newline @
     concat (map (\<lambda>(i, row). i @ tab @ concat (map (\<lambda>(g, n). str n @ tab) row) @ newline)
               confusion)"

text \<open>
  The result is the table together with the printed text. The assertion is checked
  first; an exception in the tallying loop leaves nothing printed.
\<close>

definition confusion_matrix :: "string list \<Rightarrow> string list \<Rightarrow> error + (confusion \<times> string)" where
  "confusion_matrix inferred groundtruth =
     (if length inferred \<noteq> length groundtruth then Inl AssertionError
      else
        (case tally initial_confusion (zip inferred groundtruth) of
           Inl e \<Rightarrow> Inl e
         | Inr confusion \<Rightarrow> Inr (confusion, print_confusion confusion)))"

subsection \<open>Loading the corpus into the collection\<close>

text \<open>
  A row of the corpus dataframe. The collection belongs to the vector-store library; what
  the notebook does to it is the sequence of its \<^verbatim>\<open>add\<close> calls, each with the three
  keyword arguments \<^verbatim>\<open>ids\<close>, \<^verbatim>\<open>documents\<close> and \<^verbatim>\<open>metadatas\<close>.
\<close>

record corpus_row =
  doc_id :: int
  title :: string
  abstract :: "string list"
  structured :: bool

record add_call =
  add_ids :: "string list"
  add_documents :: "string list"
  add_metadatas :: "(string \<times> bool) list list"

definition batch_size :: nat where
  "batch_size = 100"

text \<open>The arguments of one \<^verbatim>\<open>add\<close> call, computed from \<^verbatim>\<open>batch_df\<close>.\<close>

definition add_batch :: "corpus_row list \<Rightarrow> add_call" where
  "add_batch batch_df =
     \<lparr>add_ids = map (\<lambda>x. str x) (map doc_id batch_df),
      add_documents = map (\<lambda>r. title r @ ''. '' @ join '' '' (abstract r)) batch_df,
      add_metadatas = map (\<lambda>structured. [(''structured'', structured)]) (map structured batch_df)\<rparr>"

text \<open>
  \<^verbatim>\<open>
  for i in range(0, len(corpus_df), batch_size):
      batch_df = corpus_df[i:i+batch_size]
      scifact_corpus_collection.add(...)
  \<close>
\<close>

function ingest_from :: "nat \<Rightarrow> corpus_row list \<Rightarrow> add_call list \<Rightarrow> add_call list" where
  "ingest_from i corpus_df calls =
     (if i < length corpus_df
      then ingest_from (i + batch_size) corpus_df
             (calls @ [add_batch (take batch_size (drop i corpus_df))])
      else calls)"
  by pat_completeness auto
termination
  by (relation "measure (\<lambda>(i, corpus_df, calls). length corpus_df - i)")
     (auto simp: batch_size_def)

declare ingest_from.simps [simp del]

definition ingest :: "corpus_row list \<Rightarrow> add_call list" where
  "ingest corpus_df = ingest_from 0 corpus_df []"

subsection \<open>Assessing claims with retrieved context\<close>

definition build_prompt_with_context :: "string \<Rightarrow> string list \<Rightarrow> message list" where
  \<open>build_prompt_with_context claim context =
    [\<lparr>role = ''system'', content =
       join newline
       [''I will ask you to assess whether a particular scientific claim, based on evidence'' @
          '' provided. Output only the text 'True' if the claim is true, 'False' if the claim'' @
          '' is false, or 'NEE' if there's not enough evidence.'']\<rparr>,
     \<lparr>role = ''user'', content =
       join newline
       [''"'',
        ''The evidence is the following:'',
        '''',
        join '' '' context,
        '''',
        ''Assess the following claim on the basis of the evidence. Output only the text'' @
          '' 'True' if the claim is true, 'False' if the claim is false, or 'NEE' if there's'' @
          '' not enough evidence. Do not output any other text.'',
        '''',
        ''Claim:'',
        claim,
        '''',
        ''Assessment:'',
        '''']\<rparr>]\<close>

text \<open>
  \<^verbatim>\<open>
  for claim, context in zip(claims, contexts):
      if len(context) == 0:
          responses.append('NEE')
          continue
      response = client.chat.completions.create(...)
      responses.append(response.choices[0].message.content.strip('., '))
  \<close>
\<close>

fun assess_claims_with_context_loop ::
  "chat_api \<Rightarrow> (string \<times> string list) list \<Rightarrow> string list \<times> chat_request list
     \<Rightarrow> string list \<times> chat_request list" where
  "assess_claims_with_context_loop llm [] (responses, sent) = (responses, sent)"
| "assess_claims_with_context_loop llm ((claim, context) # rest) (responses, sent) =
     (if length context = 0
      then assess_claims_with_context_loop llm rest (responses @ [''NEE''], sent)
      else
        (case create llm
                \<lparr>model = OPENAI_MODEL, messages = build_prompt_with_context claim context,
                 max_tokens = Some 3\<rparr> sent of
           (response, sent') \<Rightarrow>
             assess_claims_with_context_loop llm rest
               (responses @ [strip response ''., ''], sent')))"

definition assess_claims_with_context ::
  "chat_api \<Rightarrow> string list \<Rightarrow> string list list \<Rightarrow> chat_request list
     \<Rightarrow> string list \<times> chat_request list" where
  "assess_claims_with_context llm claims contexts sent =
     assess_claims_with_context_loop llm (zip claims contexts) ([], sent)"

subsection \<open>Distance-threshold filtering of query results\<close>

text \<open>
  A query result is the dictionary returned by the collection's \<^verbatim>\<open>query\<close>: under the
  keys \<^verbatim>\<open>ids\<close>, \<^verbatim>\<open>documents\<close> and \<^verbatim>\<open>distances\<close> it holds one inner list per query text.
  Other keys are carried by the record's extension field and are never touched.
  Distances and the threshold are Python floats, NaN and the infinities among them. The
  inner lists are distinct objects, as the lists of a query's answer are, so that popping
  from one leaves the others as they are.
\<close>

record query_result =
  ids :: "string list list"
  documents :: "string list list"
  distances :: "pyfloat list list"

text \<open>
  The inner loop
  \<^verbatim>\<open>
  for i in range(len(ids)-1, -1, -1):
      if distances[i] > distance_threshold:
          ids.pop(i)
          docs.pop(i)
          distances.pop(i)
  \<close>
  The range is computed once, from the length \<open>ids\<close> has before the loop. The second
  argument \<open>n\<close> of \<open>filter_entries\<close> is the number of iterations still to run; the
  iteration it runs next has \<open>i = n - 1\<close>.
\<close>

fun filter_entries ::
  "pyfloat \<Rightarrow> nat \<Rightarrow> string list \<times> string list \<times> pyfloat list
     \<Rightarrow> error + (string list \<times> string list \<times> pyfloat list)" where
  "filter_entries t 0 s = Inr s"
| "filter_entries t (Suc i) (is, docs, ds) =
     (if i < length ds then
        (if ds ! i > t then
           (case pop is i of Inl e \<Rightarrow> Inl e | Inr is' \<Rightarrow>
            (case pop docs i of Inl e \<Rightarrow> Inl e | Inr docs' \<Rightarrow>
             (case pop ds i of Inl e \<Rightarrow> Inl e | Inr ds' \<Rightarrow>
                filter_entries t i (is', docs', ds'))))
         else filter_entries t i (is, docs, ds))
      else Inl IndexError)"

text \<open>
  The outer loop \<^verbatim>\<open>for ids, docs, distances in zip(...)\<close>: \<open>zip\<close> stops at the shortest
  of the three outer lists, and the inner lists behind that point are left as they are.
  An exception in one row ends the whole call.
\<close>

fun filter_rows ::
  "pyfloat \<Rightarrow> string list list \<Rightarrow> string list list \<Rightarrow> pyfloat list list
     \<Rightarrow> error + (string list list \<times> string list list \<times> pyfloat list list)" where
  "filter_rows t (is # iss) (docs # docss) (ds # dss) =
     (case filter_entries t (length is) (is, docs, ds) of
        Inl e \<Rightarrow> Inl e
      | Inr (is', docs', ds') \<Rightarrow>
          (case filter_rows t iss docss dss of
             Inl e \<Rightarrow> Inl e
           | Inr (iss', docss', dss') \<Rightarrow> Inr (is' # iss', docs' # docss', ds' # dss')))"
| "filter_rows t iss docss dss = Inr (iss, docss, dss)"

definition filter_query_result ::
  "'a query_result_scheme \<Rightarrow> pyfloat \<Rightarrow> error + 'a query_result_scheme" where
  "filter_query_result query_result distance_threshold =
     (case filter_rows distance_threshold
             (ids query_result) (documents query_result) (distances query_result) of
        Inl e \<Rightarrow> Inl e
      | Inr (iss, docss, dss) \<Rightarrow>
          Inr (query_result\<lparr>ids := iss, documents := docss, distances := dss\<rparr>))"

text \<open>The default of the keyword argument \<^verbatim>\<open>distance_threshold=0.25\<close>.\<close>

definition default_distance_threshold :: pyfloat where
  "default_distance_threshold = Num 0.25"

subsection \<open>Hypothetical document embeddings\<close>

definition build_hallucination_prompt :: "string \<Rightarrow> message list" where
  \<open>build_hallucination_prompt claim =
    [\<lparr>role = ''system'', content =
       join newline
       [''I will ask you to write an abstract for a scientific paper which supports or'' @
          '' refutes a given claim. It should be written in scientific language, include a'' @
          '' title. Output only one abstract, then stop.'',
        '''',
        ''    An Example:'',
        '''',
        ''    Claim:'',
        ''    A high microerythrocyte count raises vulnerability to severe anemia in'' @
          '' homozygous alpha (+)- thalassemia trait subjects.'',
        '''',
        ''    Abstract:'',
        ''    BACKGROUND The heritable haemoglobinopathy alpha(+)-thalassaemia is caused by'' @
          '' the reduced synthesis of alpha-globin chains that form part of normal adult'' @
          '' haemoglobin (Hb). Individuals homozygous for alpha(+)-thalassaemia have'' @
          '' microcytosis and an increased erythrocyte count. Alpha(+)-thalassaemia'' @
          '' homozygosity confers considerable protection against severe malaria, including'' @
          '' severe malarial anaemia (SMA) (Hb concentration < 50 g/l), but does not influence'' @
          '' parasite count. We tested the hypothesis that the erythrocyte indices associated'' @
          '' with alpha(+)-thalassaemia homozygosity provide a haematological benefit during'' @
          '' acute malaria.'',
        ''    METHODS AND FINDINGS Data from children living on the north coast of Papua New'' @
          '' Guinea who had participated in a case-control study of the protection afforded by'' @
          '' alpha(+)-thalassaemia against severe malaria were reanalysed to assess the'' @
          '' genotype-specific reduction in erythrocyte count and Hb levels associated with'' @
          '' acute malarial disease. We observed a reduction in median erythrocyte count of'' @
          '' approximately 1.5 x 10(12)/l in all children with acute falciparum malaria'' @
          '' relative to values in community children (p < 0.001). We developed a simple'' @
          '' mathematical model of the linear relationship between Hb concentration and'' @
          '' erythrocyte count. This model predicted that children homozygous for'' @
          '' alpha(+)-thalassaemia lose less Hb than children of normal genotype for a'' @
          '' reduction in erythrocyte count of >1.1 x 10(12)/l as a result of the reduced mean'' @
          '' cell Hb in homozygous alpha(+)-thalassaemia. In addition, children homozygous for'' @
          '' alpha(+)-thalassaemia require a 10% greater reduction in erythrocyte count than'' @
          '' children of normal genotype (p = 0.02) for Hb concentration to fall to 50 g/l, the'' @
          '' cutoff for SMA. We estimated that the haematological profile in children'' @
          '' homozygous for alpha(+)-thalassaemia reduces the risk of SMA during acute malaria'' @
          '' compared to children of normal genotype (relative risk 0.52; 95% confidence'' @
          '' interval [CI] 0.24-1.12, p = 0.09).'',
        ''    CONCLUSIONS The increased erythrocyte count and microcytosis in children'' @
          '' homozygous for alpha(+)-thalassaemia may contribute substantially to their'' @
          '' protection against SMA. A lower concentration of Hb per erythrocyte and a larger'' @
          '' population of erythrocytes may be a biologically advantageous strategy against the'' @
          '' significant reduction in erythrocyte count that occurs during acute infection with'' @
          '' the malaria parasite Plasmodium falciparum. This haematological profile may reduce'' @
          '' the risk of anaemia by other Plasmodium species, as well as other causes of'' @
          '' anaemia. Other host polymorphisms that induce an increased erythrocyte count and'' @
          '' microcytosis may confer a similar advantage.'',
        '''',
        ''    End of example.'',
        '''',
        ''    '']\<rparr>,
     \<lparr>role = ''user'', content =
       join newline
       [''"'',
        ''    Perform the task for the following claim.'',
        '''',
        ''    Claim:'',
        ''    '' @
          claim,
        '''',
        ''    Abstract:'',
        ''    '']\<rparr>]\<close>

text \<open>The request has no \<^verbatim>\<open>max_tokens\<close>, and the response text is taken as it is.\<close>

fun hallucinate_evidence_loop ::
  "chat_api \<Rightarrow> string list \<Rightarrow> string list \<times> chat_request list
     \<Rightarrow> string list \<times> chat_request list" where
  "hallucinate_evidence_loop llm [] (responses, sent) = (responses, sent)"
| "hallucinate_evidence_loop llm (claim # claims) (responses, sent) =
     (case create llm
             \<lparr>model = OPENAI_MODEL, messages = build_hallucination_prompt claim,
              max_tokens = None\<rparr> sent of
        (response, sent') \<Rightarrow>
          hallucinate_evidence_loop llm claims (responses @ [response], sent'))"

definition hallucinate_evidence ::
  "chat_api \<Rightarrow> string list \<Rightarrow> chat_request list \<Rightarrow> string list \<times> chat_request list" where
  "hallucinate_evidence llm claims sent = hallucinate_evidence_loop llm claims ([], sent)"

subsection \<open>The retrieval cells\<close>

text \<open>
  \<^verbatim>\<open>scifact_corpus_collection.query(query_texts=..., include=[...], n_results=3)\<close> is a
  call to the vector-store library: a parameter \<open>query\<close> from the query texts and the
  number of results to the query result.
\<close>

type_synonym collection_query = "string list \<Rightarrow> nat \<Rightarrow> query_result"

text \<open>
  \<^verbatim>\<open>
  claim_query_result = scifact_corpus_collection.query(query_texts=claims, ..., n_results=3)
  filtered_claim_query_result = filter_query_result(claim_query_result)
  \<close>
\<close>

definition claim_query_result :: "collection_query \<Rightarrow> string list \<Rightarrow> query_result" where
  "claim_query_result query claims = query claims 3"

definition filtered_claim_query_result ::
  "collection_query \<Rightarrow> string list \<Rightarrow> error + query_result" where
  "filtered_claim_query_result query claims =
     filter_query_result (claim_query_result query claims) default_distance_threshold"

text \<open>
  \<^verbatim>\<open>
  hallucinated_evidence = hallucinate_evidence(claims)
  hallucinated_query_result = scifact_corpus_collection.query(
      query_texts=hallucinated_evidence, ..., n_results=3)
  filtered_hallucinated_query_result = filter_query_result(hallucinated_query_result)
  \<close>
\<close>

definition hallucinated_query_result ::
  "chat_api \<Rightarrow> collection_query \<Rightarrow> string list \<Rightarrow> chat_request list \<Rightarrow> query_result" where
  "hallucinated_query_result llm query claims sent =
     query (fst (hallucinate_evidence llm claims sent)) 3"

definition filtered_hallucinated_query_result ::
  "chat_api \<Rightarrow> collection_query \<Rightarrow> string list \<Rightarrow> chat_request list \<Rightarrow> error + query_result" where
  "filtered_hallucinated_query_result llm query claims sent =
     filter_query_result (hallucinated_query_result llm query claims sent)
       default_distance_threshold"

subsection \<open>Specification-side notions\<close>

text \<open>The three labels, in the order of the confusion table's keys.\<close>

definition labels :: "string list" where
  "labels = [''True'', ''False'', ''NEE'']"

text \<open>The cell of a table at row \<open>i\<close> and column \<open>g\<close>, if there is one.\<close>

definition cell :: "confusion \<Rightarrow> string \<Rightarrow> string \<Rightarrow> int option" where
  "cell confusion i g = (case map_of confusion i of None \<Rightarrow> None | Some row \<Rightarrow> map_of row g)"

text \<open>The table with the three labels as row and column keys and the counts \<open>f i g\<close>.\<close>

definition table_of :: "(string \<Rightarrow> string \<Rightarrow> int) \<Rightarrow> confusion" where
  "table_of f = map (\<lambda>i. (i, map (\<lambda>g. (g, f i g)) labels)) labels"

text \<open>The number of positions at which \<open>inferred\<close> has \<open>i\<close> and \<open>groundtruth\<close> has \<open>g\<close>.\<close>

definition positions :: "string list \<Rightarrow> string list \<Rightarrow> string \<Rightarrow> string \<Rightarrow> nat" where
  "positions inferred groundtruth i g =
     length (filter (\<lambda>k. inferred ! k = i \<and> groundtruth ! k = g)
               [0..<min (length inferred) (length groundtruth)])"

text \<open>
  What the filter is meant to compute on one row: the entries of \<open>xs\<close> at the indices
  whose distance is not greater than the threshold by Python's \<^verbatim>\<open>>\<close>, in their order.
\<close>

definition retained :: "pyfloat \<Rightarrow> pyfloat list \<Rightarrow> 'a list \<Rightarrow> 'a list" where
  "retained t ds xs = map (\<lambda>i. xs ! i) (filter (\<lambda>i. \<not> ds ! i > t) [0..<length ds])"

text \<open>
  What the inner loop's iterations for the indices \<open>n - 1\<close> down to \<open>0\<close> leave of one
  list of a row: the entries below \<open>n\<close> are filtered, those from \<open>n\<close> on stay as they are.
\<close>

definition kept :: "pyfloat \<Rightarrow> nat \<Rightarrow> pyfloat list \<Rightarrow> 'a list \<Rightarrow> 'a list" where
  "kept t n ds xs = map (\<lambda>i. xs ! i) (filter (\<lambda>i. \<not> ds ! i > t) [0..<n]) @ drop n xs"

text \<open>
  A query result is aligned when the three outer lists have one row per query and the
  three rows of each query have the same length.
\<close>

definition aligned :: "'a query_result_scheme \<Rightarrow> bool" where
  "aligned q \<longleftrightarrow>
     length (ids q) = length (distances q) \<and>
     length (documents q) = length (distances q) \<and>
     list_all (\<lambda>k. length (ids q ! k) = length (distances q ! k) \<and>
                   length (documents q ! k) = length (distances q ! k))
       [0..<length (distances q)]"

text \<open>The label the dataset gives one evidence dictionary.\<close>

definition verdict :: "evidence \<Rightarrow> string" where
  "verdict e =
     (if e = [] then ''NEE''
      else if label (hd (snd (hd e))) = ''SUPPORT'' then ''True'' else ''False'')"

text \<open>
  An evidence dictionary is annotated when its first entry, if it has one, has at least
  one sentence annotation.
\<close>

definition annotated :: "evidence \<Rightarrow> bool" where
  "annotated e \<longleftrightarrow> (case e of [] \<Rightarrow> True | (d, annotations) # _ \<Rightarrow> annotations \<noteq> [])"

section \<open>Properties\<close>

subsection \<open>The chat loops\<close>

lemma assess_claims_loop_eq:
  "assess_claims_loop llm claims (responses, sent) =
     (responses @ map (\<lambda>claim. strip (llm \<lparr>model = OPENAI_MODEL, messages = build_prompt claim,
                                           max_tokens = Some 3\<rparr>) ''., '') claims,
      sent @ map (\<lambda>claim. \<lparr>model = OPENAI_MODEL, messages = build_prompt claim,
                            max_tokens = Some 3\<rparr>) claims)"
  by (induction claims arbitrary: responses sent) (simp_all add: create_def)

lemma hallucinate_evidence_loop_eq:
  "hallucinate_evidence_loop llm claims (responses, sent) =
     (responses @ map (\<lambda>claim. llm \<lparr>model = OPENAI_MODEL,
                          messages = build_hallucination_prompt claim, max_tokens = None\<rparr>) claims,
      sent @ map (\<lambda>claim. \<lparr>model = OPENAI_MODEL, messages = build_hallucination_prompt claim,
                            max_tokens = None\<rparr>) claims)"
  by (induction claims arbitrary: responses sent) (simp_all add: create_def)

lemma assess_claims_with_context_loop_eq:
  "assess_claims_with_context_loop llm ps (responses, sent) =
     (responses @ map (\<lambda>(claim, context).
          if context = [] then ''NEE''
          else strip (llm \<lparr>model = OPENAI_MODEL,
                           messages = build_prompt_with_context claim context,
                           max_tokens = Some 3\<rparr>) ''., '') ps,
      sent @ map (\<lambda>(claim, context). \<lparr>model = OPENAI_MODEL,
                           messages = build_prompt_with_context claim context,
                           max_tokens = Some 3\<rparr>)
               (filter (\<lambda>(claim, context). context \<noteq> []) ps))"
  by (induction ps arbitrary: responses sent) (auto simp: create_def)

subsection \<open>Stripping\<close>

lemma strip_parts:
  "\<exists>pre suf. s = pre @ strip s chars @ suf \<and> set pre \<subseteq> set chars \<and> set suf \<subseteq> set chars"
proof -
  let ?P = "\<lambda>c. c \<in> set chars"
  let ?m = "dropWhile ?P s"
  have "rev (takeWhile ?P (rev ?m) @ dropWhile ?P (rev ?m)) = ?m"
    by (simp only: takeWhile_dropWhile_id rev_rev_ident)
  then have "rev (dropWhile ?P (rev ?m)) @ rev (takeWhile ?P (rev ?m)) = ?m"
    by (simp only: rev_append)
  then have m: "strip s chars @ rev (takeWhile ?P (rev ?m)) = ?m"
    by (simp only: strip_def)
  have "takeWhile ?P s @ ?m = s" by (rule takeWhile_dropWhile_id)
  with m have "s = takeWhile ?P s @ strip s chars @ rev (takeWhile ?P (rev ?m))" by simp
  moreover have "set (takeWhile ?P s) \<subseteq> set chars"
    by (auto dest: set_takeWhileD)
  moreover have "set (rev (takeWhile ?P (rev ?m))) \<subseteq> set chars"
    by (auto dest: set_takeWhileD)
  ultimately show ?thesis by blast
qed

lemma strip_ends:
  assumes "strip s chars \<noteq> []"
  shows "hd (strip s chars) \<notin> set chars \<and> last (strip s chars) \<notin> set chars"
proof -
  let ?P = "\<lambda>c. c \<in> set chars"
  let ?m = "dropWhile ?P s"
  let ?d = "dropWhile ?P (rev ?m)"
  from assms have d: "?d \<noteq> []" by (simp add: strip_def)
  have m: "?m \<noteq> []"
  proof
    assume "?m = []"
    then have "rev ?m = []" by (simp only: rev.simps)
    then have "?d = []" by (simp only: dropWhile.simps)
    with d show False by contradiction
  qed
  have "last (strip s chars) = hd ?d" using d by (simp add: strip_def last_rev)
  moreover have "\<not> ?P (hd ?d)" using d by (rule hd_dropWhile)
  moreover have "hd (strip s chars) = last ?d" using d by (simp add: strip_def hd_rev)
  moreover have "last ?d = last (rev ?m)"
  proof -
    have "last (takeWhile ?P (rev ?m) @ ?d) = last ?d" using d by (rule last_appendR)
    then show ?thesis by (simp only: takeWhile_dropWhile_id)
  qed
  moreover have "last (rev ?m) = hd ?m" using m by (simp add: last_rev)
  moreover have "\<not> ?P (hd ?m)" using m by (rule hd_dropWhile)
  ultimately show ?thesis by simp
qed

subsection \<open>The confusion table\<close>

lemma initial_confusion_table: "initial_confusion = table_of (\<lambda>i g. 0)"
  by (simp add: initial_confusion_def table_of_def labels_def)

lemma increment_table:
  "i \<in> set labels \<Longrightarrow> g \<in> set labels \<Longrightarrow>
   increment (table_of f) i g = Inr (table_of (\<lambda>a b. f a b + (if a = i \<and> b = g then 1 else 0)))"
  by (auto simp: increment_def getitem_def table_of_def labels_def)

lemma increment_KeyError:
  "i \<notin> set labels \<or> g \<notin> set labels \<Longrightarrow> increment (table_of f) i g = Inl KeyError"
  by (auto simp: increment_def getitem_def table_of_def labels_def)

lemma tally_table:
  "\<forall>p \<in> set ps. fst p \<in> set labels \<and> snd p \<in> set labels \<Longrightarrow>
   tally (table_of f) ps = Inr (table_of (\<lambda>a b. f a b + int (count_list ps (a, b))))"
proof (induction ps arbitrary: f)
  case Nil
  then show ?case by simp
next
  case (Cons p ps)
  obtain i g where p: "p = (i, g)" by (cases p)
  have "(\<lambda>a b. f a b + (if a = i \<and> b = g then 1 else 0) + int (count_list ps (a, b)))
      = (\<lambda>a b. f a b + int (count_list ((i, g) # ps) (a, b)))"
    by (intro ext) auto
  then show ?case
    using Cons.prems Cons.IH [of "\<lambda>a b. f a b + (if a = i \<and> b = g then 1 else 0)"] p
    by (simp add: increment_table)
qed

lemma tally_KeyError:
  "\<exists>p \<in> set ps. fst p \<notin> set labels \<or> snd p \<notin> set labels \<Longrightarrow>
   tally (table_of f) ps = Inl KeyError"
proof (induction ps arbitrary: f)
  case Nil
  then show ?case by simp
next
  case (Cons p ps)
  obtain i g where p: "p = (i, g)" by (cases p)
  show ?case
  proof (cases "i \<in> set labels \<and> g \<in> set labels")
    case True
    with Cons.prems p have "\<exists>p \<in> set ps. fst p \<notin> set labels \<or> snd p \<notin> set labels" by auto
    from Cons.IH [OF this] True p show ?thesis by (simp add: increment_table)
  next
    case False
    then show ?thesis using p by (simp add: increment_KeyError)
  qed
qed

lemma zip_by_index:
  "zip xs ys = map (\<lambda>k. (xs ! k, ys ! k)) [0..<min (length xs) (length ys)]"
  by (rule nth_equalityI) auto

lemma positions_count:
  "positions inferred groundtruth i g = count_list (zip inferred groundtruth) (i, g)"
proof -
  have "count_list (zip inferred groundtruth) (i, g)
      = length (filter ((=) (i, g)) (map (\<lambda>k. (inferred ! k, groundtruth ! k))
                  [0..<min (length inferred) (length groundtruth)]))"
    by (simp only: count_list_eq_length_filter zip_by_index [symmetric])
  also have "\<dots> = length (filter ((=) (i, g) \<circ> (\<lambda>k. (inferred ! k, groundtruth ! k)))
                  [0..<min (length inferred) (length groundtruth)])"
    by (simp only: filter_map length_map)
  also have "\<dots> = length (filter (\<lambda>k. inferred ! k = i \<and> groundtruth ! k = g)
                  [0..<min (length inferred) (length groundtruth)])"
    by (rule arg_cong [where f = length], rule filter_cong) auto
  finally show ?thesis by (simp add: positions_def)
qed

lemma count_total:
  "\<forall>p \<in> set ps. fst p \<in> set labels \<and> snd p \<in> set labels \<Longrightarrow>
   sum_list (concat (map (\<lambda>row. map snd (snd row))
      (table_of (\<lambda>a b. int (count_list ps (a, b)))))) = int (length ps)"
proof (induction ps)
  case Nil
  then show ?case by (simp add: table_of_def labels_def)
next
  case (Cons p ps)
  then have "sum_list (concat (map (\<lambda>row. map snd (snd row))
      (table_of (\<lambda>a b. int (count_list ps (a, b)))))) = int (length ps)"
    by simp
  moreover obtain i g where p: "p = (i, g)" by (cases p)
  moreover have "i \<in> set labels" "g \<in> set labels" using Cons.prems p by auto
  ultimately show ?case
    by (auto simp: table_of_def labels_def)
qed

lemma cell_table:
  "i \<in> set labels \<Longrightarrow> g \<in> set labels \<Longrightarrow> cell (table_of f) i g = Some (f i g)"
  by (auto simp: cell_def table_of_def labels_def)

lemma table_keys:
  "map fst (table_of f) = labels \<and> (\<forall>row \<in> set (table_of f). map fst (snd row) = labels)"
  by (simp add: table_of_def labels_def)

lemma zip_valid:
  "length xs = length ys \<Longrightarrow>
   (\<forall>p \<in> set (zip xs ys). fst p \<in> A \<and> snd p \<in> A) \<longleftrightarrow> set xs \<subseteq> A \<and> set ys \<subseteq> A"
  by (induction xs ys rule: list_induct2) auto

lemma set_labels: "set labels = {''True'', ''False'', ''NEE''}"
  by (simp add: labels_def)

lemma confusion_matrix_AssertionError:
  "length inferred \<noteq> length groundtruth \<Longrightarrow>
   confusion_matrix inferred groundtruth = Inl AssertionError"
  by (simp add: confusion_matrix_def)

lemma confusion_matrix_ok:
  assumes "length inferred = length groundtruth"
    "set inferred \<subseteq> set labels" "set groundtruth \<subseteq> set labels"
  shows "confusion_matrix inferred groundtruth =
     Inr (table_of (\<lambda>i g. int (positions inferred groundtruth i g)),
          print_confusion (table_of (\<lambda>i g. int (positions inferred groundtruth i g))))"
proof -
  have v: "\<forall>p \<in> set (zip inferred groundtruth). fst p \<in> set labels \<and> snd p \<in> set labels"
    using assms by (simp add: zip_valid)
  have "tally initial_confusion (zip inferred groundtruth)
      = Inr (table_of (\<lambda>a b. 0 + int (count_list (zip inferred groundtruth) (a, b))))"
    unfolding initial_confusion_table by (rule tally_table [OF v])
  then show ?thesis using assms(1)
    by (simp add: confusion_matrix_def positions_count)
qed

lemma confusion_matrix_KeyError:
  assumes "length inferred = length groundtruth"
    "\<not> (set inferred \<subseteq> set labels \<and> set groundtruth \<subseteq> set labels)"
  shows "confusion_matrix inferred groundtruth = Inl KeyError"
proof -
  have "\<exists>p \<in> set (zip inferred groundtruth). fst p \<notin> set labels \<or> snd p \<notin> set labels"
    using assms zip_valid [OF assms(1), of "set labels"] by blast
  then have "tally initial_confusion (zip inferred groundtruth) = Inl KeyError"
    unfolding initial_confusion_table by (rule tally_KeyError)
  then show ?thesis using assms(1) by (simp add: confusion_matrix_def)
qed

lemma tally_append:
  "tally c (ps @ qs) = (case tally c ps of Inl e \<Rightarrow> Inl e | Inr c' \<Rightarrow> tally c' qs)"
  by (induction ps arbitrary: c) (auto split: sum.splits)

text \<open>The first position at which the increment raises ends the tallying.\<close>

lemma tally_raises:
  assumes "k < length ps" "tally c (take k ps) = Inr c'"
    "increment c' (fst (ps ! k)) (snd (ps ! k)) = Inl e"
  shows "tally c ps = Inl e"
proof -
  have "ps = take k ps @ (fst (ps ! k), snd (ps ! k)) # drop (Suc k) ps"
    using assms(1) by (simp add: id_take_nth_drop [symmetric])
  then have "tally c ps = tally c (take k ps @ (fst (ps ! k), snd (ps ! k)) # drop (Suc k) ps)"
    by simp
  also have "\<dots> = Inl e"
    using assms(2,3) by (simp only: tally_append sum.case tally.simps)
  finally show ?thesis .
qed

subsection \<open>Ground truth\<close>

lemma get_groundtruth_loop_eq:
  "\<forall>e \<in> set evidence. annotated e \<Longrightarrow>
   get_groundtruth_loop evidence groundtruth = Inr (groundtruth @ map verdict evidence)"
proof (induction evidence arbitrary: groundtruth)
  case Nil
  then show ?case by simp
next
  case (Cons e evidence)
  then show ?case
    by (cases e) (auto simp: annotated_def verdict_def first_item_def values_list_def)
qed

lemma get_groundtruth_loop_IndexError:
  "\<exists>e \<in> set evidence. \<not> annotated e \<Longrightarrow>
   get_groundtruth_loop evidence groundtruth = Inl IndexError"
proof (induction evidence arbitrary: groundtruth)
  case Nil
  then show ?case by simp
next
  case (Cons e evidence)
  show ?case
  proof (cases "annotated e")
    case True
    with Cons.prems have "\<exists>e \<in> set evidence. \<not> annotated e" by simp
    then have "\<And>groundtruth. get_groundtruth_loop evidence groundtruth = Inl IndexError"
      by (rule Cons.IH)
    with True show ?thesis
      by (cases e) (auto simp: annotated_def first_item_def values_list_def)
  next
    case False
    then show ?thesis
      by (cases e) (auto simp: annotated_def first_item_def values_list_def)
  qed
qed

subsection \<open>Corpus batches\<close>

lemma batches_step:
  "i < n \<Longrightarrow> (n - i + 99) div 100 = Suc ((n - (i + 100) + 99) div 100)" for i n :: nat
proof (cases "n - i \<le> 100")
  case True
  assume "i < n"
  with True have "(n - i + 99) div 100 = 1" "n - (i + 100) = 0" by simp_all
  then show ?thesis by simp
next
  case False
  then have "n - i + 99 = (n - (i + 100) + 99) + 100" by simp
  then have "(n - i + 99) div 100 = (n - (i + 100) + 99) div 100 + 1"
    by (simp only: div_add_self2)
  then show ?thesis by simp
qed

lemma batch_start: "k < (n + 99) div 100 \<Longrightarrow> 100 * k < n" for k n :: nat
proof -
  assume "k < (n + 99) div 100"
  then have "Suc k \<le> (n + 99) div 100" by simp
  then have "Suc k * 100 \<le> n + 99" by (simp only: less_eq_div_iff_mult_less_eq zero_less_numeral)
  then show ?thesis by simp
qed

lemma drop_batch: "take b (drop i xs) @ drop (i + b) xs = drop i xs"
  by (metis add.commute append_take_drop_id drop_drop)

text \<open>
  Any per-row view \<open>g\<close> of the corpus that distributes over concatenation is, over all
  calls, the view of the rows from \<open>i\<close> on.
\<close>

lemma ingest_from_rows:
  assumes "\<And>xs ys. g (xs @ ys) = g xs @ g ys" "\<And>batch. f (add_batch batch) = g batch"
  shows "concat (map f (ingest_from i corpus_df calls))
       = concat (map f calls) @ g (drop i corpus_df)"
proof (induction i corpus_df calls rule: ingest_from.induct)
  case (1 i corpus_df calls)
  show ?case
  proof (cases "i < length corpus_df")
    case True
    have "g (take batch_size (drop i corpus_df)) @ g (drop (i + batch_size) corpus_df)
        = g (drop i corpus_df)"
      by (simp only: assms(1) [symmetric] drop_batch)
    with True "1.IH" show ?thesis
      by (subst ingest_from.simps) (simp add: assms(2))
  next
    case False
    have "g [] = []" using assms(1) [of "[]" "[]"] by simp
    with False show ?thesis by (subst ingest_from.simps) simp
  qed
qed

lemma ingest_from_nth:
  "length (ingest_from i corpus_df calls) = length calls + (length corpus_df - i + 99) div 100
   \<and> (\<forall>k < length calls. ingest_from i corpus_df calls ! k = calls ! k)
   \<and> (\<forall>k < (length corpus_df - i + 99) div 100.
         ingest_from i corpus_df calls ! (length calls + k)
           = add_batch (take 100 (drop (i + 100 * k) corpus_df)))"
proof (induction i corpus_df calls rule: ingest_from.induct)
  case (1 i corpus_df calls)
  show ?case
  proof (cases "i < length corpus_df")
    case True
    define calls' where "calls' = calls @ [add_batch (take 100 (drop i corpus_df))]"
    define r where "r = ingest_from (i + 100) corpus_df calls'"
    define m where "m = (length corpus_df - (i + 100) + 99) div 100"
    define M where "M = (length corpus_df - i + 99) div 100"
    have unf: "ingest_from i corpus_df calls = r"
      using True by (subst ingest_from.simps) (simp add: r_def calls'_def batch_size_def)
    from "1.IH" [OF True] have
      len: "length r = length calls' + m" and
      old: "\<forall>k < length calls'. r ! k = calls' ! k" and
      new: "\<forall>k < m. r ! (length calls' + k)
               = add_batch (take 100 (drop (i + 100 + 100 * k) corpus_df))"
      unfolding batch_size_def r_def calls'_def m_def by blast+
    have step: "M = Suc m"
      unfolding M_def m_def using True by (rule batches_step)
    have lc: "length calls' = Suc (length calls)" by (simp add: calls'_def)
    have a: "length r = length calls + M"
      using len step lc by simp
    have b: "\<forall>k < length calls. r ! k = calls ! k"
      using old lc by (simp add: calls'_def nth_append)
    have c: "r ! (length calls + k) = add_batch (take 100 (drop (i + 100 * k) corpus_df))"
      if "k < M" for k
    proof (cases k)
      case 0
      have "r ! length calls = calls' ! length calls" using old lc by simp
      then show ?thesis using 0 by (simp add: calls'_def)
    next
      case (Suc j)
      with that step have "j < m" by simp
      with new have "r ! (length calls' + j)
               = add_batch (take 100 (drop (i + 100 + 100 * j) corpus_df))" by blast
      moreover have "length calls' + j = length calls + k" using lc Suc by simp
      moreover have "i + 100 + 100 * j = i + 100 * k" using Suc by simp
      ultimately show ?thesis by simp
    qed
    from a b c show ?thesis unfolding unf M_def by blast
  next
    case False
    then have "ingest_from i corpus_df calls = calls"
      by (subst ingest_from.simps) simp
    moreover have "(length corpus_df - i + 99) div 100 = 0" using False by simp
    ultimately show ?thesis by simp
  qed
qed

subsection \<open>Filtering one row\<close>

lemma kept_pop:
  assumes "i < length xs" "i < length ds" "ds ! i > t"
  shows "kept t i (take i ds @ drop (Suc i) ds) (take i xs @ drop (Suc i) xs) = kept t (Suc i) ds xs"
proof -
  have a: "filter (\<lambda>j. \<not> (take i ds @ drop (Suc i) ds) ! j > t) [0..<i]
         = filter (\<lambda>j. \<not> ds ! j > t) [0..<i]"
    using assms by (intro filter_cong) (auto simp: nth_append)
  have b: "map (\<lambda>j. (take i xs @ drop (Suc i) xs) ! j) (filter (\<lambda>j. \<not> ds ! j > t) [0..<i])
         = map (\<lambda>j. xs ! j) (filter (\<lambda>j. \<not> ds ! j > t) [0..<i])"
    using assms by (intro map_cong) (auto simp: nth_append)
  show ?thesis using assms by (simp add: kept_def a b)
qed

lemma kept_keep:
  assumes "i < length xs" "\<not> ds ! i > t"
  shows "kept t i ds xs = kept t (Suc i) ds xs"
  using assms by (simp add: kept_def Cons_nth_drop_Suc)

lemma kept_full: "length xs = length ds \<Longrightarrow> kept t (length ds) ds xs = retained t ds xs"
  by (simp add: kept_def retained_def)

lemma length_retained: "length (retained t ds xs) = length (retained t ds ys)"
  by (simp add: retained_def)

lemma filter_entries_kept:
  "n \<le> length is \<Longrightarrow> n \<le> length docs \<Longrightarrow> n \<le> length ds \<Longrightarrow>
   filter_entries t n (is, docs, ds) = Inr (kept t n ds is, kept t n ds docs, kept t n ds ds)"
proof (induction n arbitrary: "is" docs ds)
  case 0
  then show ?case by (simp add: kept_def)
next
  case (Suc i)
  show ?case
  proof (cases "ds ! i > t")
    case True
    have "filter_entries t i
            (take i is @ drop (Suc i) is, take i docs @ drop (Suc i) docs,
             take i ds @ drop (Suc i) ds)
        = Inr (kept t i (take i ds @ drop (Suc i) ds) (take i is @ drop (Suc i) is),
               kept t i (take i ds @ drop (Suc i) ds) (take i docs @ drop (Suc i) docs),
               kept t i (take i ds @ drop (Suc i) ds) (take i ds @ drop (Suc i) ds))"
      using Suc.prems by (intro Suc.IH) auto
    then show ?thesis using Suc.prems True by (simp add: pop_def kept_pop)
  next
    case False
    have "filter_entries t i (is, docs, ds) = Inr (kept t i ds is, kept t i ds docs, kept t i ds ds)"
      using Suc.prems by (intro Suc.IH) auto
    then show ?thesis using Suc.prems False by (simp add: kept_keep)
  qed
qed




subsection \<open>Filtering a query result\<close>


text \<open>The first row whose loop raises ends the filtering.\<close>

lemma filter_rows_raises:
  "n < length iss \<Longrightarrow> n < length docss \<Longrightarrow> n < length dss \<Longrightarrow>
   \<forall>j<n. \<exists>r. filter_entries t (length (iss ! j)) (iss ! j, docss ! j, dss ! j) = Inr r \<Longrightarrow>
   filter_entries t (length (iss ! n)) (iss ! n, docss ! n, dss ! n) = Inl e \<Longrightarrow>
   filter_rows t iss docss dss = Inl e"
proof (induction n arbitrary: iss docss dss)
  case 0
  then show ?case
    by (cases iss; cases docss; cases dss) simp_all
next
  case (Suc n)
  from Suc.prems(1-3) obtain "is" iss' docs docss' ds dss' where
    s: "iss = is # iss'" "docss = docs # docss'" "dss = ds # dss'"
    by (cases iss; cases docss; cases dss) auto
  from Suc.prems(4) [rule_format, of 0] s obtain r where
    r: "filter_entries t (length is) (is, docs, ds) = Inr r" by auto
  have "\<forall>j<n. \<exists>r. filter_entries t (length (iss' ! j)) (iss' ! j, docss' ! j, dss' ! j) = Inr r"
    using Suc.prems(4) s by (auto dest: spec [of _ "Suc _"])
  then have "filter_rows t iss' docss' dss' = Inl e"
    using Suc.prems s by (intro Suc.IH) auto
  with r s show ?case by (cases r) simp
qed

lemma filter_rows_aligned:
  "list_all2 (\<lambda>is ds. length is = length ds) iss dss \<Longrightarrow>
   list_all2 (\<lambda>docs ds. length docs = length ds) docss dss \<Longrightarrow>
   filter_rows t iss docss dss =
     Inr (map2 (retained t) dss iss, map2 (retained t) dss docss,
          map (\<lambda>ds. retained t ds ds) dss)"
proof (induction dss arbitrary: iss docss)
  case Nil
  then show ?case by simp
next
  case (Cons ds dss)
  then obtain "is" iss1 docs docss1 where
    s: "iss = is # iss1" "docss = docs # docss1" "length is = length ds" "length docs = length ds"
       "list_all2 (\<lambda>is ds. length is = length ds) iss1 dss"
       "list_all2 (\<lambda>docs ds. length docs = length ds) docss1 dss"
    by (auto simp: list_all2_Cons2)
  have "filter_entries t (length is) (is, docs, ds)
      = Inr (retained t ds is, retained t ds docs, retained t ds ds)"
    using s(3,4) filter_entries_kept [of "length ds" "is" docs ds t] by (simp add: kept_full)
  then show ?case using s Cons.IH [OF s(5,6)] by simp
qed

lemma aligned_all2:
  "aligned q \<Longrightarrow> list_all2 (\<lambda>is ds. length is = length ds) (ids q) (distances q)
     \<and> list_all2 (\<lambda>docs ds. length docs = length ds) (documents q) (distances q)"
  by (simp add: aligned_def list_all2_conv_all_nth list_all_iff)

lemma filter_query_result_aligned:
  assumes "aligned q"
  shows "filter_query_result q t =
           Inr (q\<lparr>ids := map2 (retained t) (distances q) (ids q),
                  documents := map2 (retained t) (distances q) (documents q),
                  distances := map (\<lambda>ds. retained t ds ds) (distances q)\<rparr>)"
proof -
  from aligned_all2 [OF assms] have
    a: "list_all2 (\<lambda>is ds. length is = length ds) (ids q) (distances q)" and
    b: "list_all2 (\<lambda>docs ds. length docs = length ds) (documents q) (distances q)"
    by simp_all
  show ?thesis
    by (simp add: filter_query_result_def filter_rows_aligned [OF a b])
qed



section \<open>The claims\<close>

text \<open>
  Claim C1. On an aligned query result, \<open>filter_query_result\<close> with threshold \<open>t\<close> returns,
  without raising, the query result in which every row of ids, documents and distances
  keeps exactly the entries at the indices whose distance is not strictly greater than
  \<open>t\<close>, the same indices in all three lists, in their original order and with their
  values; the result is aligned again. This holds for every \<open>t\<close>, the default 0.25
  among them.
\<close>

theorem filter_query_result_removes_exactly:
  assumes "aligned q"
  shows "filter_query_result q t =
           Inr (q\<lparr>ids := map2 (retained t) (distances q) (ids q),
                  documents := map2 (retained t) (distances q) (documents q),
                  distances := map (\<lambda>ds. retained t ds ds) (distances q)\<rparr>)
         \<and> aligned (q\<lparr>ids := map2 (retained t) (distances q) (ids q),
                  documents := map2 (retained t) (distances q) (documents q),
                  distances := map (\<lambda>ds. retained t ds ds) (distances q)\<rparr>)
         \<and> default_distance_threshold = Num 0.25"
proof -
  have "aligned (q\<lparr>ids := map2 (retained t) (distances q) (ids q),
                  documents := map2 (retained t) (distances q) (documents q),
                  distances := map (\<lambda>ds. retained t ds ds) (distances q)\<rparr>)"
    using assms by (auto simp: aligned_def list_all_iff intro: length_retained)
  with filter_query_result_aligned [OF assms] show ?thesis
    by (simp add: default_distance_threshold_def)
qed

theorem filter_query_result_removes_exactly_witness:
  "aligned \<lparr>ids = [[''a'', ''b'', ''c''], [''d'']],
            documents = [[''A'', ''B'', ''C''], [''D'']],
            distances = [[Num 0.1, Num 0.3, Num 0.2], [Num 0.5]]\<rparr>
   \<and> filter_query_result
        \<lparr>ids = [[''a'', ''b'', ''c''], [''d'']],
         documents = [[''A'', ''B'', ''C''], [''D'']],
         distances = [[Num 0.1, Num 0.3, Num 0.2], [Num 0.5]]\<rparr> (Num 0.25)
     = Inr \<lparr>ids = [[''a'', ''c''], []],
            documents = [[''A'', ''C''], []],
            distances = [[Num 0.1, Num 0.2], []]\<rparr>"
proof -
  have a: "aligned \<lparr>ids = [[''a'', ''b'', ''c''], [''d'']],
            documents = [[''A'', ''B'', ''C''], [''D'']],
            distances = [[Num 0.1, Num 0.3, Num 0.2], [Num 0.5]]\<rparr>"
    by (simp add: aligned_def)
  from filter_query_result_removes_exactly [OF a, of "Num 0.25", THEN conjunct1] a
  show ?thesis
    by (simp add: retained_def)
qed

text \<open>
  Claim C2. For equal-length lists \<open>inferred\<close> and \<open>groundtruth\<close> whose elements are all
  among 'True', 'False' and 'NEE', \<open>confusion_matrix\<close> returns a table with the three
  labels as row keys and as column keys of every row, whose cell at row \<open>i\<close> and column
  \<open>g\<close> is the number of positions \<open>k\<close> with \<open>inferred[k] = i\<close> and \<open>groundtruth[k] = g\<close>;
  the nine cells sum to the common length.
\<close>

theorem confusion_matrix_counts:
  assumes "length inferred = length groundtruth"
    "set inferred \<subseteq> {''True'', ''False'', ''NEE''}"
    "set groundtruth \<subseteq> {''True'', ''False'', ''NEE''}"
  shows "\<exists>confusion out. confusion_matrix inferred groundtruth = Inr (confusion, out)
     \<and> map fst confusion = [''True'', ''False'', ''NEE'']
     \<and> (\<forall>row \<in> set confusion. map fst (snd row) = [''True'', ''False'', ''NEE''])
     \<and> (\<forall>i \<in> {''True'', ''False'', ''NEE''}. \<forall>g \<in> {''True'', ''False'', ''NEE''}.
           cell confusion i g = Some (int (positions inferred groundtruth i g)))
     \<and> sum_list (concat (map (\<lambda>row. map snd (snd row)) confusion)) = int (length inferred)"
proof -
  let ?c = "table_of (\<lambda>i g. int (positions inferred groundtruth i g))"
  have l: "labels = [''True'', ''False'', ''NEE'']"
    by (simp add: labels_def)
  have sub: "set inferred \<subseteq> set labels" "set groundtruth \<subseteq> set labels"
    using assms(2,3) unfolding set_labels by blast+
  have ok: "confusion_matrix inferred groundtruth = Inr (?c, print_confusion ?c)"
    using assms(1) sub by (rule confusion_matrix_ok)
  have v: "\<forall>p \<in> set (zip inferred groundtruth). fst p \<in> set labels \<and> snd p \<in> set labels"
    using zip_valid [OF assms(1), of "set labels"] sub by blast
  have total: "sum_list (concat (map (\<lambda>row. map snd (snd row)) ?c)) = int (length inferred)"
    using count_total [OF v] assms(1) by (simp add: positions_count)
  have cells: "\<forall>i \<in> {''True'', ''False'', ''NEE''}. \<forall>g \<in> {''True'', ''False'', ''NEE''}.
           cell ?c i g = Some (int (positions inferred groundtruth i g))"
    using cell_table [of _ _ "\<lambda>i g. int (positions inferred groundtruth i g)"]
    unfolding set_labels by blast
  from table_keys [of "\<lambda>i g. int (positions inferred groundtruth i g)"]
  have keys: "map fst ?c = [''True'', ''False'', ''NEE'']"
     "\<forall>row \<in> set ?c. map fst (snd row) = [''True'', ''False'', ''NEE'']"
    unfolding l by blast+
  show ?thesis
    by (rule exI [of _ ?c], rule exI [of _ "print_confusion ?c"])
       (intro conjI ok keys cells total)
qed

theorem confusion_matrix_counts_witness:
  "length [''True'', ''NEE'', ''True''] = length [''True'', ''False'', ''True'']
   \<and> set [''True'', ''NEE'', ''True''] \<subseteq> {''True'', ''False'', ''NEE''}
   \<and> set [''True'', ''False'', ''True''] \<subseteq> {''True'', ''False'', ''NEE''}
   \<and> (\<exists>confusion out.
         confusion_matrix [''True'', ''NEE'', ''True''] [''True'', ''False'', ''True'']
           = Inr (confusion, out)
         \<and> cell confusion ''True'' ''True'' = Some 2
         \<and> cell confusion ''NEE'' ''False'' = Some 1
         \<and> cell confusion ''False'' ''NEE'' = Some 0
         \<and> sum_list (concat (map (\<lambda>row. map snd (snd row)) confusion)) = 3)"
proof -
  have h: "length [''True'', ''NEE'', ''True''] = length [''True'', ''False'', ''True'']"
    "set [''True'', ''NEE'', ''True''] \<subseteq> {''True'', ''False'', ''NEE''}"
    "set [''True'', ''False'', ''True''] \<subseteq> {''True'', ''False'', ''NEE''}"
    by simp_all
  have p: "positions [''True'', ''NEE'', ''True''] [''True'', ''False'', ''True''] ''True'' ''True'' = 2"
    "positions [''True'', ''NEE'', ''True''] [''True'', ''False'', ''True''] ''NEE'' ''False'' = 1"
    "positions [''True'', ''NEE'', ''True''] [''True'', ''False'', ''True''] ''False'' ''NEE'' = 0"
    by (simp_all add: positions_def upt_rec [of 0] upt_rec [of 1] upt_rec [of 2] upt_rec [of 3])
  from confusion_matrix_counts [OF h] obtain confusion out where
    c: "confusion_matrix [''True'', ''NEE'', ''True''] [''True'', ''False'', ''True'']
           = Inr (confusion, out)"
       "\<forall>i \<in> {''True'', ''False'', ''NEE''}. \<forall>g \<in> {''True'', ''False'', ''NEE''}.
           cell confusion i g
             = Some (int (positions [''True'', ''NEE'', ''True''] [''True'', ''False'', ''True''] i g))"
       "sum_list (concat (map (\<lambda>row. map snd (snd row)) confusion))
          = int (length [''True'', ''NEE'', ''True''])"
    by blast
  from c(2) p have "cell confusion ''True'' ''True'' = Some 2"
    "cell confusion ''NEE'' ''False'' = Some 1" "cell confusion ''False'' ''NEE'' = Some 0"
    by simp_all
  with c(1,3) h show ?thesis by simp
qed

text \<open>
  Claim C3, as the code has it. For every list of evidence dictionaries in which the first
  entry of every non-empty dictionary has at least one sentence annotation,
  \<open>get_groundtruth\<close> returns a list of the same length whose every element is one of
  'True', 'False' and 'NEE': 'NEE' exactly when the corresponding dictionary is empty,
  'True' exactly when it is non-empty and the label of the first annotation of its first
  entry is 'SUPPORT', and 'False' otherwise. On any other list the call raises
  IndexError.
\<close>

theorem get_groundtruth_labels:
  "((\<forall>e \<in> set evidence. annotated e) \<longrightarrow>
      (\<exists>groundtruth. get_groundtruth evidence = Inr groundtruth
         \<and> length groundtruth = length evidence
         \<and> (\<forall>k < length evidence.
               groundtruth ! k \<in> {''True'', ''False'', ''NEE''}
               \<and> (groundtruth ! k = ''NEE'' \<longleftrightarrow> evidence ! k = [])
               \<and> (groundtruth ! k = ''True'' \<longleftrightarrow>
                    evidence ! k \<noteq> [] \<and> label (hd (snd (hd (evidence ! k)))) = ''SUPPORT'')
               \<and> (groundtruth ! k = ''False'' \<longleftrightarrow>
                    evidence ! k \<noteq> [] \<and> label (hd (snd (hd (evidence ! k)))) \<noteq> ''SUPPORT''))))
   \<and> ((\<exists>e \<in> set evidence. \<not> annotated e) \<longrightarrow> get_groundtruth evidence = Inl IndexError)"
proof (intro conjI impI)
  assume a: "\<forall>e \<in> set evidence. annotated e"
  have run: "get_groundtruth evidence = Inr (map verdict evidence)"
    using get_groundtruth_loop_eq [OF a, of "[]"] by (simp add: get_groundtruth_def)
  have per: "\<forall>k < length evidence.
               map verdict evidence ! k \<in> {''True'', ''False'', ''NEE''}
               \<and> (map verdict evidence ! k = ''NEE'' \<longleftrightarrow> evidence ! k = [])
               \<and> (map verdict evidence ! k = ''True'' \<longleftrightarrow>
                    evidence ! k \<noteq> [] \<and> label (hd (snd (hd (evidence ! k)))) = ''SUPPORT'')
               \<and> (map verdict evidence ! k = ''False'' \<longleftrightarrow>
                    evidence ! k \<noteq> [] \<and> label (hd (snd (hd (evidence ! k)))) \<noteq> ''SUPPORT'')"
    by (simp add: verdict_def)
  show "\<exists>groundtruth. get_groundtruth evidence = Inr groundtruth
         \<and> length groundtruth = length evidence
         \<and> (\<forall>k < length evidence.
               groundtruth ! k \<in> {''True'', ''False'', ''NEE''}
               \<and> (groundtruth ! k = ''NEE'' \<longleftrightarrow> evidence ! k = [])
               \<and> (groundtruth ! k = ''True'' \<longleftrightarrow>
                    evidence ! k \<noteq> [] \<and> label (hd (snd (hd (evidence ! k)))) = ''SUPPORT'')
               \<and> (groundtruth ! k = ''False'' \<longleftrightarrow>
                    evidence ! k \<noteq> [] \<and> label (hd (snd (hd (evidence ! k)))) \<noteq> ''SUPPORT''))"
    by (rule exI [of _ "map verdict evidence"]) (intro conjI run per length_map)
next
  assume "\<exists>e \<in> set evidence. \<not> annotated e"
  then show "get_groundtruth evidence = Inl IndexError"
    unfolding get_groundtruth_def by (rule get_groundtruth_loop_IndexError)
qed

theorem get_groundtruth_labels_witness:
  "annotated []
   \<and> annotated [(''14717500'', [\<lparr>sentences = [2, 5], label = ''SUPPORT''\<rparr>])]
   \<and> annotated [(''4983'', [\<lparr>sentences = [1], label = ''CONTRADICT''\<rparr>])]
   \<and> get_groundtruth [[], [(''14717500'', [\<lparr>sentences = [2, 5], label = ''SUPPORT''\<rparr>])],
                 [(''4983'', [\<lparr>sentences = [1], label = ''CONTRADICT''\<rparr>])]]
     = Inr [''NEE'', ''True'', ''False'']
   \<and> \<not> annotated [(''4983'', [])]
   \<and> get_groundtruth [[(''4983'', [])]] = Inl IndexError"
proof -
  let ?ev = "[[], [(''14717500'', [\<lparr>sentences = [2, 5], label = ''SUPPORT''\<rparr>])],
                 [(''4983'', [\<lparr>sentences = [1], label = ''CONTRADICT''\<rparr>])]]"
  have a: "annotated []"
    "annotated [(''14717500'', [\<lparr>sentences = [2, 5], label = ''SUPPORT''\<rparr>])]"
    "annotated [(''4983'', [\<lparr>sentences = [1], label = ''CONTRADICT''\<rparr>])]"
    by (simp_all add: annotated_def)
  then have all: "\<forall>e \<in> set ?ev. annotated e" by simp
  have b: "\<not> annotated [(''4983'', [])]" by (simp add: annotated_def)
  then have some: "\<exists>e \<in> set [[(''4983'', [])]]. \<not> annotated e" by simp
  from get_groundtruth_labels [of ?ev] all obtain groundtruth where
    g: "get_groundtruth ?ev = Inr groundtruth" "length groundtruth = length ?ev"
       "\<forall>k < length ?ev. (groundtruth ! k = ''NEE'' \<longleftrightarrow> ?ev ! k = [])
               \<and> (groundtruth ! k = ''True'' \<longleftrightarrow>
                    ?ev ! k \<noteq> [] \<and> label (hd (snd (hd (?ev ! k)))) = ''SUPPORT'')
               \<and> (groundtruth ! k = ''False'' \<longleftrightarrow>
                    ?ev ! k \<noteq> [] \<and> label (hd (snd (hd (?ev ! k)))) \<noteq> ''SUPPORT'')"
    by blast
  have "groundtruth ! 0 = ''NEE''" "groundtruth ! 1 = ''True''" "groundtruth ! 2 = ''False''"
    using g(3) [rule_format, of 0] g(3) [rule_format, of 1] g(3) [rule_format, of 2]
    by simp_all
  with g(2) have "groundtruth = [''NEE'', ''True'', ''False'']"
    by (intro nth_equalityI) (auto simp: less_Suc_eq numeral_2_eq_2 numeral_3_eq_3)
  with g(1) have run: "get_groundtruth ?ev = Inr [''NEE'', ''True'', ''False'']" by simp
  from some get_groundtruth_labels [of "[[(''4983'', [])]]"]
  have "get_groundtruth [[(''4983'', [])]] = Inl IndexError" by blast
  with run a b show ?thesis by (intro conjI)
qed

text \<open>
  Without the condition on the annotations the call need not return a list: a dictionary
  whose first entry has an empty list of annotations makes the second \<^verbatim>\<open>[0]\<close> raise.
\<close>

theorem get_groundtruth_unannotated_counterexample:
  "get_groundtruth [[(''4983'', [])]] = Inl IndexError"
  by (simp add: get_groundtruth_def first_item_def values_list_def)

text \<open>
  Claim C4, as the code has it. The three helpers have no failure recovery, but they are
  neither total nor free of branches. \<open>confusion_matrix\<close> returns a table exactly when the
  two lists have the same length and all their elements are among 'True', 'False' and
  'NEE'; it raises AssertionError on different lengths and KeyError on lists of the same
  length with another element, and an exception that the increment raises at any position
  ends the call with that exception. \<open>filter_query_result\<close> returns on every aligned query
  result, keeping in every row exactly the entries whose distance is not greater than the
  threshold and removing the others; an exception raised while a row is filtered ends the
  call with that exception. \<open>assess_claims_with_context\<close>, with a model that answers every
  request, returns on every input one response per pair of a claim and a context: 'NEE',
  without a request, when the context is empty, and the model's stripped answer otherwise.
  The three prompt builders return a system message and a user message for every input.
\<close>

theorem helpers_no_recovery_and_branch:
  "((\<exists>r. confusion_matrix inferred groundtruth = Inr r) \<longleftrightarrow>
      length inferred = length groundtruth
      \<and> set inferred \<subseteq> {''True'', ''False'', ''NEE''}
      \<and> set groundtruth \<subseteq> {''True'', ''False'', ''NEE''})
   \<and> (length inferred \<noteq> length groundtruth \<longrightarrow>
        confusion_matrix inferred groundtruth = Inl AssertionError)
   \<and> (length inferred = length groundtruth
        \<and> \<not> set inferred \<union> set groundtruth \<subseteq> {''True'', ''False'', ''NEE''} \<longrightarrow>
        confusion_matrix inferred groundtruth = Inl KeyError)
   \<and> (length inferred = length groundtruth \<and> k < length inferred
        \<and> tally initial_confusion (take k (zip inferred groundtruth)) = Inr c
        \<and> increment c (inferred ! k) (groundtruth ! k) = Inl e \<longrightarrow>
        confusion_matrix inferred groundtruth = Inl e)
   \<and> (aligned q \<longrightarrow>
        filter_query_result q t =
           Inr (q\<lparr>ids := map2 (retained t) (distances q) (ids q),
                  documents := map2 (retained t) (distances q) (documents q),
                  distances := map (\<lambda>ds. retained t ds ds) (distances q)\<rparr>))
   \<and> (n < length (ids q) \<and> n < length (documents q) \<and> n < length (distances q)
        \<and> (\<forall>j<n. \<exists>r. filter_entries t (length (ids q ! j))
                        (ids q ! j, documents q ! j, distances q ! j) = Inr r)
        \<and> filter_entries t (length (ids q ! n))
             (ids q ! n, documents q ! n, distances q ! n) = Inl e \<longrightarrow>
        filter_query_result q t = Inl e)
   \<and> assess_claims_with_context llm claims contexts sent
       = (map (\<lambda>(claim, context).
                 if context = [] then ''NEE''
                 else strip (llm \<lparr>model = OPENAI_MODEL,
                                  messages = build_prompt_with_context claim context,
                                  max_tokens = Some 3\<rparr>) ''., '')
            (zip claims contexts),
          sent @ map (\<lambda>(claim, context). \<lparr>model = OPENAI_MODEL,
                           messages = build_prompt_with_context claim context,
                           max_tokens = Some 3\<rparr>)
                  (filter (\<lambda>(claim, context). context \<noteq> []) (zip claims contexts)))
   \<and> map role (build_prompt claim) = [''system'', ''user'']
   \<and> map role (build_prompt_with_context claim context) = [''system'', ''user'']
   \<and> map role (build_hallucination_prompt claim) = [''system'', ''user'']"
proof -
  have cm: "(\<exists>r. confusion_matrix inferred groundtruth = Inr r) \<longleftrightarrow>
      length inferred = length groundtruth
      \<and> set inferred \<subseteq> {''True'', ''False'', ''NEE''}
      \<and> set groundtruth \<subseteq> {''True'', ''False'', ''NEE''}"
  proof (cases "length inferred = length groundtruth")
    case False
    then show ?thesis by (simp add: confusion_matrix_AssertionError)
  next
    case len: True
    show ?thesis
    proof (cases "set inferred \<subseteq> set labels \<and> set groundtruth \<subseteq> set labels")
      case True
      then have "\<exists>r. confusion_matrix inferred groundtruth = Inr r"
        using confusion_matrix_ok [OF len] by blast
      with True len show ?thesis unfolding set_labels by blast
    next
      case False
      from confusion_matrix_KeyError [OF len False]
      have "\<not> (\<exists>r. confusion_matrix inferred groundtruth = Inr r)" by simp
      with False show ?thesis unfolding set_labels by blast
    qed
  qed
  have ae: "length inferred \<noteq> length groundtruth \<longrightarrow>
        confusion_matrix inferred groundtruth = Inl AssertionError"
    by (simp add: confusion_matrix_AssertionError)
  have ke: "length inferred = length groundtruth
        \<and> \<not> set inferred \<union> set groundtruth \<subseteq> {''True'', ''False'', ''NEE''} \<longrightarrow>
        confusion_matrix inferred groundtruth = Inl KeyError"
  proof
    assume a: "length inferred = length groundtruth
        \<and> \<not> set inferred \<union> set groundtruth \<subseteq> {''True'', ''False'', ''NEE''}"
    then have "\<not> (set inferred \<subseteq> set labels \<and> set groundtruth \<subseteq> set labels)"
      unfolding set_labels by blast
    with a show "confusion_matrix inferred groundtruth = Inl KeyError"
      by (intro confusion_matrix_KeyError) simp_all
  qed
  have inc: "length inferred = length groundtruth \<and> k < length inferred
        \<and> tally initial_confusion (take k (zip inferred groundtruth)) = Inr c
        \<and> increment c (inferred ! k) (groundtruth ! k) = Inl e \<longrightarrow>
        confusion_matrix inferred groundtruth = Inl e"
  proof
    assume a: "length inferred = length groundtruth \<and> k < length inferred
        \<and> tally initial_confusion (take k (zip inferred groundtruth)) = Inr c
        \<and> increment c (inferred ! k) (groundtruth ! k) = Inl e"
    then have "k < length (zip inferred groundtruth)" by simp
    moreover from a have "increment c (fst (zip inferred groundtruth ! k))
        (snd (zip inferred groundtruth ! k)) = Inl e" by simp
    ultimately have "tally initial_confusion (zip inferred groundtruth) = Inl e"
      using a by (intro tally_raises [of k _ _ c]) simp_all
    with a show "confusion_matrix inferred groundtruth = Inl e"
      by (simp add: confusion_matrix_def)
  qed
  have fq: "aligned q \<longrightarrow>
        filter_query_result q t =
           Inr (q\<lparr>ids := map2 (retained t) (distances q) (ids q),
                  documents := map2 (retained t) (distances q) (documents q),
                  distances := map (\<lambda>ds. retained t ds ds) (distances q)\<rparr>)"
    using filter_query_result_aligned [of q t] by blast
  have fr: "n < length (ids q) \<and> n < length (documents q) \<and> n < length (distances q)
        \<and> (\<forall>j<n. \<exists>r. filter_entries t (length (ids q ! j))
                        (ids q ! j, documents q ! j, distances q ! j) = Inr r)
        \<and> filter_entries t (length (ids q ! n))
             (ids q ! n, documents q ! n, distances q ! n) = Inl e \<longrightarrow>
        filter_query_result q t = Inl e"
  proof
    assume a: "n < length (ids q) \<and> n < length (documents q) \<and> n < length (distances q)
        \<and> (\<forall>j<n. \<exists>r. filter_entries t (length (ids q ! j))
                        (ids q ! j, documents q ! j, distances q ! j) = Inr r)
        \<and> filter_entries t (length (ids q ! n))
             (ids q ! n, documents q ! n, distances q ! n) = Inl e"
    then have "filter_rows t (ids q) (documents q) (distances q) = Inl e"
      by (intro filter_rows_raises [of n]) blast+
    then show "filter_query_result q t = Inl e"
      by (simp add: filter_query_result_def)
  qed
  have ac: "assess_claims_with_context llm claims contexts sent
       = (map (\<lambda>(claim, context).
                 if context = [] then ''NEE''
                 else strip (llm \<lparr>model = OPENAI_MODEL,
                                  messages = build_prompt_with_context claim context,
                                  max_tokens = Some 3\<rparr>) ''., '')
            (zip claims contexts),
          sent @ map (\<lambda>(claim, context). \<lparr>model = OPENAI_MODEL,
                           messages = build_prompt_with_context claim context,
                           max_tokens = Some 3\<rparr>)
                  (filter (\<lambda>(claim, context). context \<noteq> []) (zip claims contexts)))"
    by (simp add: assess_claims_with_context_def assess_claims_with_context_loop_eq)
  have roles: "map role (build_prompt claim) = [''system'', ''user'']"
    "map role (build_prompt_with_context claim context) = [''system'', ''user'']"
    "map role (build_hallucination_prompt claim) = [''system'', ''user'']"
    by (simp_all add: build_prompt_def build_prompt_with_context_def
        build_hallucination_prompt_def)
  from cm ae ke inc fq fr ac roles show ?thesis by (intro conjI)
qed


theorem helpers_no_recovery_and_branch_witness:
  "(\<exists>r. confusion_matrix [''True'', ''NEE''] [''False'', ''NEE''] = Inr r)
   \<and> length [''True'', ''NEE''] \<noteq> length [''False'']
   \<and> confusion_matrix [''True'', ''NEE''] [''False''] = Inl AssertionError
   \<and> tally initial_confusion (take 1 (zip [''True'', ''Maybe''] [''True'', ''NEE'']))
       = Inr [(''True'', [(''True'', 1), (''False'', 0), (''NEE'', 0)]),
              (''False'', [(''True'', 0), (''False'', 0), (''NEE'', 0)]),
              (''NEE'', [(''True'', 0), (''False'', 0), (''NEE'', 0)])]
   \<and> increment [(''True'', [(''True'', 1), (''False'', 0), (''NEE'', 0)]),
                 (''False'', [(''True'', 0), (''False'', 0), (''NEE'', 0)]),
                 (''NEE'', [(''True'', 0), (''False'', 0), (''NEE'', 0)])]
         ''Maybe'' ''NEE'' = Inl KeyError
   \<and> confusion_matrix [''True'', ''Maybe''] [''True'', ''NEE''] = Inl KeyError
   \<and> aligned \<lparr>ids = [[''a'', ''b'']], documents = [[''A'', ''B'']],
               distances = [[Num 0.5, Num 0.2]]\<rparr>
   \<and> filter_query_result
         \<lparr>ids = [[''a'', ''b'']], documents = [[''A'', ''B'']],
          distances = [[Num 0.5, Num 0.2]]\<rparr> (Num 0.25)
       = Inr \<lparr>ids = [[''b'']], documents = [[''B'']], distances = [[Num 0.2]]\<rparr>
   \<and> filter_entries (Num 0.25) 1 ([''b''], [], [Num 0.5]) = Inl IndexError
   \<and> filter_query_result
         \<lparr>ids = [[''a''], [''b'']], documents = [[''A''], []],
          distances = [[Num 0.1], [Num 0.5]]\<rparr> (Num 0.25)
       = Inl IndexError
   \<and> assess_claims_with_context (\<lambda>request. ''True.'')
         [''first claim'', ''second claim''] [[], [''a document'']] []
       = ([''NEE'', ''True''],
          [\<lparr>model = OPENAI_MODEL,
            messages = build_prompt_with_context ''second claim'' [''a document''],
            max_tokens = Some 3\<rparr>])"
proof -
  let ?c = "[(''True'', [(''True'', 1), (''False'', 0), (''NEE'', 0)]),
             (''False'', [(''True'', 0), (''False'', 0), (''NEE'', 0)]),
             (''NEE'', [(''True'', 0), (''False'', 0), (''NEE'', 0)])]"
  let ?q = "\<lparr>ids = [[''a'', ''b'']], documents = [[''A'', ''B'']],
             distances = [[Num 0.5, Num 0.2]]\<rparr>"
  let ?q' = "\<lparr>ids = [[''a''], [''b'']], documents = [[''A''], []],
              distances = [[Num 0.1], [Num 0.5]]\<rparr>"
  have w1: "\<exists>r. confusion_matrix [''True'', ''NEE''] [''False'', ''NEE''] = Inr r"
    using helpers_no_recovery_and_branch
      [of "[''True'', ''NEE'']" "[''False'', ''NEE'']", THEN conjunct1]
    by simp
  have l: "length [''True'', ''NEE''] \<noteq> length [''False'']" by simp
  have w2: "confusion_matrix [''True'', ''NEE''] [''False''] = Inl AssertionError"
    using l helpers_no_recovery_and_branch
      [of "[''True'', ''NEE'']" "[''False'']", THEN conjunct2, THEN conjunct1]
    by blast
  have t1: "tally initial_confusion (take 1 (zip [''True'', ''Maybe''] [''True'', ''NEE'']))
       = Inr ?c"
    by (simp add: initial_confusion_def increment_def getitem_def)
  have t2: "increment ?c ''Maybe'' ''NEE'' = Inl KeyError"
    by (simp add: increment_def getitem_def)
  have w3: "confusion_matrix [''True'', ''Maybe''] [''True'', ''NEE''] = Inl KeyError"
    using t1 t2 helpers_no_recovery_and_branch
      [where inferred = "[''True'', ''Maybe'']" and groundtruth = "[''True'', ''NEE'']"
         and k = 1 and c = ?c and e = KeyError,
       THEN conjunct2, THEN conjunct2, THEN conjunct2, THEN conjunct1]
    by simp
  have a: "aligned ?q" by (simp add: aligned_def)
  have w4: "filter_query_result ?q (Num 0.25)
       = Inr \<lparr>ids = [[''b'']], documents = [[''B'']], distances = [[Num 0.2]]\<rparr>"
    using a helpers_no_recovery_and_branch
      [where q = ?q and t = "Num 0.25",
       THEN conjunct2, THEN conjunct2, THEN conjunct2, THEN conjunct2, THEN conjunct1]
    by (simp add: retained_def)
  have r0: "\<forall>j<1. \<exists>r. filter_entries (Num 0.25) (length (ids ?q' ! j))
                        (ids ?q' ! j, documents ?q' ! j, distances ?q' ! j) = Inr r"
    by simp
  have r1: "filter_entries (Num 0.25) 1 ([''b''], [], [Num 0.5]) = Inl IndexError"
    by (simp add: pop_def)
  have w5: "filter_query_result ?q' (Num 0.25) = Inl IndexError"
    using r0 r1 helpers_no_recovery_and_branch
      [where q = ?q' and t = "Num 0.25" and n = 1 and e = IndexError,
       THEN conjunct2, THEN conjunct2, THEN conjunct2, THEN conjunct2, THEN conjunct2,
       THEN conjunct1]
    by simp
  have s: "strip ''True.'' ''., '' = ''True''" by (simp add: strip_def)
  have w6: "assess_claims_with_context (\<lambda>request. ''True.'')
         [''first claim'', ''second claim''] [[], [''a document'']] []
       = ([''NEE'', ''True''],
          [\<lparr>model = OPENAI_MODEL,
            messages = build_prompt_with_context ''second claim'' [''a document''],
            max_tokens = Some 3\<rparr>])"
    using helpers_no_recovery_and_branch
      [where llm = "\<lambda>request. ''True.''" and claims = "[''first claim'', ''second claim'']"
         and contexts = "[[], [''a document'']]" and sent = "[]",
       THEN conjunct2, THEN conjunct2, THEN conjunct2, THEN conjunct2, THEN conjunct2,
       THEN conjunct2, THEN conjunct1]
    by (simp add: s)
  from w1 l w2 t1 t2 w3 a w4 r1 w5 w6 show ?thesis by (intro conjI)
qed

text \<open>
  Two lists of labels of different lengths: the tabulation does not succeed on them, the
  assertion raises.
\<close>

theorem confusion_matrix_unequal_lengths_counterexample:
  "confusion_matrix [''True''] [] = Inl AssertionError"
  by (simp add: confusion_matrix_def)

text \<open>
  Claim C5. \<open>hallucinate_evidence\<close> returns exactly one document per claim, in input order:
  the model's answer, as it is, to the request built from the claim by
  \<open>build_hallucination_prompt\<close>. The corpus query of the HyDE cells is issued with these
  documents as its query texts, not with the claims, and its result goes through
  \<open>filter_query_result\<close> with the default threshold 0.25, as the result of the query with
  the claims themselves does.
\<close>

theorem hyde_queries_with_generated_documents:
  "fst (hallucinate_evidence llm claims sent)
     = map (\<lambda>claim. llm \<lparr>model = OPENAI_MODEL, messages = build_hallucination_prompt claim,
                         max_tokens = None\<rparr>) claims
   \<and> length (fst (hallucinate_evidence llm claims sent)) = length claims
   \<and> hallucinated_query_result llm query claims sent
     = query (map (\<lambda>claim. llm \<lparr>model = OPENAI_MODEL,
                      messages = build_hallucination_prompt claim, max_tokens = None\<rparr>) claims) 3
   \<and> filtered_hallucinated_query_result llm query claims sent
     = filter_query_result
         (query (map (\<lambda>claim. llm \<lparr>model = OPENAI_MODEL,
                      messages = build_hallucination_prompt claim, max_tokens = None\<rparr>) claims) 3)
         (Num 0.25)
   \<and> filtered_claim_query_result query claims = filter_query_result (query claims 3) (Num 0.25)"
  by (simp add: hallucinate_evidence_def hallucinate_evidence_loop_eq
      hallucinated_query_result_def filtered_hallucinated_query_result_def
      filtered_claim_query_result_def claim_query_result_def default_distance_threshold_def)

text \<open>
  Claim C6. The ingestion loop makes one \<open>add\<close> call per batch; the \<open>k\<close>-th call carries
  the rows \<open>100 * k\<close> up to \<open>100 * k + 99\<close> of the dataframe, so every call has between one
  and 100 rows, and over all calls every row of the corpus is added exactly once and in
  dataframe order, its id the string form of its \<open>doc_id\<close> and its document the title,
  then '. ', then the abstract's sentences joined by single spaces.
\<close>

theorem ingest_adds_every_row_once:
  "length (ingest corpus_df) = (length corpus_df + 99) div 100
   \<and> (\<forall>k < length (ingest corpus_df).
         ingest corpus_df ! k = add_batch (take 100 (drop (100 * k) corpus_df))
         \<and> 0 < length (add_ids (ingest corpus_df ! k))
         \<and> length (add_ids (ingest corpus_df ! k)) \<le> 100
         \<and> length (add_documents (ingest corpus_df ! k)) = length (add_ids (ingest corpus_df ! k)))
   \<and> concat (map add_ids (ingest corpus_df)) = map (\<lambda>row. str (doc_id row)) corpus_df
   \<and> concat (map add_documents (ingest corpus_df))
       = map (\<lambda>row. title row @ ''. '' @ join '' '' (abstract row)) corpus_df"
proof -
  from ingest_from_nth [of 0 corpus_df "[]"] have
    len: "length (ingest corpus_df) = (length corpus_df + 99) div 100" and
    nth: "\<forall>k < (length corpus_df + 99) div 100.
            ingest corpus_df ! k = add_batch (take 100 (drop (100 * k) corpus_df))"
    by (simp_all add: ingest_def)
  have size: "0 < length (add_ids (ingest corpus_df ! k))
         \<and> length (add_ids (ingest corpus_df ! k)) \<le> 100
         \<and> length (add_documents (ingest corpus_df ! k)) = length (add_ids (ingest corpus_df ! k))"
    if k: "k < (length corpus_df + 99) div 100" for k
  proof -
    from k have "100 * k < length corpus_df" by (rule batch_start)
    then show ?thesis using nth k by (simp add: add_batch_def)
  qed
  have ids: "concat (map add_ids (ingest corpus_df)) = map (\<lambda>row. str (doc_id row)) corpus_df"
    using ingest_from_rows [of "map (\<lambda>row. str (doc_id row))" add_ids 0 corpus_df "[]"]
    by (simp add: ingest_def add_batch_def comp_def)
  have docs: "concat (map add_documents (ingest corpus_df))
       = map (\<lambda>row. title row @ ''. '' @ join '' '' (abstract row)) corpus_df"
    using ingest_from_rows
      [of "map (\<lambda>row. title row @ ''. '' @ join '' '' (abstract row))" add_documents 0 corpus_df "[]"]
    by (simp add: ingest_def add_batch_def)
  from len nth size ids docs show ?thesis by simp
qed

theorem ingest_adds_every_row_once_witness:
  "ingest [\<lparr>doc_id = 4983, title = ''Microstructural development'',
            abstract = [''First sentence.'', ''Second sentence.''], structured = False\<rparr>,
           \<lparr>doc_id = 5836, title = ''Induction of myelodysplasia'',
            abstract = [''Only sentence.''], structured = True\<rparr>]
   = [\<lparr>add_ids = [''4983'', ''5836''],
       add_documents = [''Microstructural development. First sentence. Second sentence.'',
                        ''Induction of myelodysplasia. Only sentence.''],
       add_metadatas = [[(''structured'', False)], [(''structured'', True)]]\<rparr>]"
proof -
  let ?df = "[\<lparr>doc_id = 4983, title = ''Microstructural development'',
            abstract = [''First sentence.'', ''Second sentence.''], structured = False\<rparr>,
           \<lparr>doc_id = 5836, title = ''Induction of myelodysplasia'',
            abstract = [''Only sentence.''], structured = True\<rparr>]"
  from ingest_adds_every_row_once [of ?df] have
    len: "length (ingest ?df) = 1" and
    nth: "\<forall>k < length (ingest ?df). ingest ?df ! k = add_batch (take 100 (drop (100 * k) ?df))"
    by simp_all
  from nth len have "ingest ?df ! 0 = add_batch ?df" by simp
  with len have "ingest ?df = [add_batch ?df]"
    by (cases "ingest ?df") simp_all
  then show ?thesis by (simp add: add_batch_def str_def digits.simps)
qed

text \<open>
  Claim C7. For every list of claims, \<open>assess_claims\<close> returns exactly one response per
  claim, in the order of the claims; each response is the model's answer to the request
  with the prompt that \<open>build_prompt\<close> builds from that claim (model \<open>OPENAI_MODEL\<close>, at most
  three tokens), stripped: what it loses is a prefix and a suffix made of '.', ',' and
  spaces, and what remains neither starts nor ends with one of them. One request per
  claim is sent, in the same order.
\<close>

theorem assess_claims_one_response_per_claim:
  "fst (assess_claims llm claims sent)
     = map (\<lambda>claim. strip (llm \<lparr>model = OPENAI_MODEL, messages = build_prompt claim,
                                max_tokens = Some 3\<rparr>) ''., '') claims
   \<and> length (fst (assess_claims llm claims sent)) = length claims
   \<and> snd (assess_claims llm claims sent)
     = sent @ map (\<lambda>claim. \<lparr>model = OPENAI_MODEL, messages = build_prompt claim,
                            max_tokens = Some 3\<rparr>) claims
   \<and> (\<forall>s. (\<exists>pre suf. s = pre @ strip s ''., '' @ suf
                \<and> set pre \<subseteq> {CHR ''.'', CHR '','', CHR '' ''}
                \<and> set suf \<subseteq> {CHR ''.'', CHR '','', CHR '' ''})
           \<and> (strip s ''., '' \<noteq> [] \<longrightarrow>
                 hd (strip s ''., '') \<notin> {CHR ''.'', CHR '','', CHR '' ''}
                 \<and> last (strip s ''., '') \<notin> {CHR ''.'', CHR '','', CHR '' ''}))"
proof -
  have chars: "set ''., '' = {CHR ''.'', CHR '','', CHR '' ''}" by simp
  have "\<exists>pre suf. s = pre @ strip s ''., '' @ suf
                \<and> set pre \<subseteq> {CHR ''.'', CHR '','', CHR '' ''}
                \<and> set suf \<subseteq> {CHR ''.'', CHR '','', CHR '' ''}" for s
    using strip_parts [of s "''., ''"] unfolding chars .
  moreover have "strip s ''., '' \<noteq> [] \<longrightarrow>
                 hd (strip s ''., '') \<notin> {CHR ''.'', CHR '','', CHR '' ''}
                 \<and> last (strip s ''., '') \<notin> {CHR ''.'', CHR '','', CHR '' ''}" for s
    using strip_ends [of s "''., ''"] unfolding chars by blast
  ultimately show ?thesis
    by (simp add: assess_claims_def assess_claims_loop_eq)
qed

theorem assess_claims_one_response_per_claim_witness:
  "fst (assess_claims (\<lambda>request. '' True. '') [''first claim'', ''second claim''] [])
     = [''True'', ''True'']
   \<and> strip ''., NEE,'' ''., '' = ''NEE''
   \<and> hd (strip ''., NEE,'' ''., '') \<notin> {CHR ''.'', CHR '','', CHR '' ''}"
proof -
  have s: "strip '' True. '' ''., '' = ''True''" "strip ''., NEE,'' ''., '' = ''NEE''"
    by (simp_all add: strip_def)
  from assess_claims_one_response_per_claim
         [of "\<lambda>request. '' True. ''" "[''first claim'', ''second claim'']" "[]"] s
  show ?thesis by simp
qed

text \<open>
  Claim C8. For lists of claims and contexts of equal length, \<open>assess_claims_with_context\<close>
  returns exactly one response per claim, in input order. The response to a claim whose
  context is empty is 'NEE', whatever the model would answer, and no request is sent for
  it: the requests sent are those of the claims with a non-empty context, in order. For
  the other claims the response is the model's stripped answer to the prompt built from
  the claim and its context.
\<close>

theorem assess_claims_with_context_empty_context_is_NEE:
  assumes "length claims = length contexts"
  shows "length (fst (assess_claims_with_context llm claims contexts sent)) = length claims
   \<and> (\<forall>k < length claims.
         fst (assess_claims_with_context llm claims contexts sent) ! k
           = (if contexts ! k = [] then ''NEE''
              else strip (llm \<lparr>model = OPENAI_MODEL,
                               messages = build_prompt_with_context (claims ! k) (contexts ! k),
                               max_tokens = Some 3\<rparr>) ''., ''))
   \<and> snd (assess_claims_with_context llm claims contexts sent)
       = sent @ map (\<lambda>(claim, context). \<lparr>model = OPENAI_MODEL,
                           messages = build_prompt_with_context claim context,
                           max_tokens = Some 3\<rparr>)
                  (filter (\<lambda>(claim, context). context \<noteq> []) (zip claims contexts))"
  using assms
  by (simp add: assess_claims_with_context_def assess_claims_with_context_loop_eq)

theorem assess_claims_with_context_empty_context_is_NEE_witness:
  "length [''first claim'', ''second claim''] = length [[], [''a document'']]
   \<and> fst (assess_claims_with_context (\<lambda>request. ''True.'')
            [''first claim'', ''second claim''] [[], [''a document'']] [])
       = [''NEE'', ''True'']
   \<and> snd (assess_claims_with_context (\<lambda>request. ''True.'')
            [''first claim'', ''second claim''] [[], [''a document'']] [])
       = [\<lparr>model = OPENAI_MODEL,
           messages = build_prompt_with_context ''second claim'' [''a document''],
           max_tokens = Some 3\<rparr>]"
proof -
  let ?r = "assess_claims_with_context (\<lambda>request. ''True.'')
            [''first claim'', ''second claim''] [[], [''a document'']] []"
  have h: "length [''first claim'', ''second claim''] = length [[], [''a document'']]" by simp
  have s: "strip ''True.'' ''., '' = ''True''" by (simp add: strip_def)
  from assess_claims_with_context_empty_context_is_NEE [OF h, of "\<lambda>request. ''True.''" "[]"]
  have len: "length (fst ?r) = 2" and
    nth: "\<forall>k < 2. fst ?r ! k
           = (if [[], [''a document'']] ! k = [] then ''NEE'' else ''True'')" and
    log: "snd ?r = [\<lparr>model = OPENAI_MODEL,
           messages = build_prompt_with_context ''second claim'' [''a document''],
           max_tokens = Some 3\<rparr>]"
    by (simp_all add: s)
  from nth have "fst ?r ! 0 = ''NEE''" "fst ?r ! 1 = ''True''" by simp_all
  with len have "fst ?r = [''NEE'', ''True'']"
    by (intro nth_equalityI) (auto simp: less_Suc_eq numeral_2_eq_2)
  with log h show ?thesis by simp
qed




text \<open>
  Claim C10, as the code has it. \<open>confusion_matrix\<close> is partial: it raises AssertionError
  whenever the two lists have different lengths, and KeyError whenever they have the same
  length and some element of either list is outside 'True', 'False' and 'NEE'. The second
  case is reachable: \<open>assess_claims\<close> passes on whatever the model answers, stripped, so a
  model that answers 'Maybe' makes the tabulation of any non-empty list of claims raise
  KeyError.
\<close>

theorem confusion_matrix_partial:
  "(length inferred \<noteq> length groundtruth \<longrightarrow>
      confusion_matrix inferred groundtruth = Inl AssertionError)
   \<and> (length inferred = length groundtruth
        \<and> \<not> set inferred \<union> set groundtruth \<subseteq> {''True'', ''False'', ''NEE''} \<longrightarrow>
      confusion_matrix inferred groundtruth = Inl KeyError)
   \<and> (claims \<noteq> [] \<and> length claims = length groundtruth \<longrightarrow>
      confusion_matrix (fst (assess_claims (\<lambda>request. ''Maybe'') claims sent)) groundtruth
        = Inl KeyError)"
proof (intro conjI impI)
  assume "length inferred \<noteq> length groundtruth"
  then show "confusion_matrix inferred groundtruth = Inl AssertionError"
    by (rule confusion_matrix_AssertionError)
next
  assume a: "length inferred = length groundtruth
        \<and> \<not> set inferred \<union> set groundtruth \<subseteq> {''True'', ''False'', ''NEE''}"
  then have "\<not> (set inferred \<subseteq> set labels \<and> set groundtruth \<subseteq> set labels)"
    unfolding set_labels by blast
  with a show "confusion_matrix inferred groundtruth = Inl KeyError"
    by (intro confusion_matrix_KeyError) simp_all
next
  assume a: "claims \<noteq> [] \<and> length claims = length groundtruth"
  let ?inferred = "fst (assess_claims (\<lambda>request. ''Maybe'') claims sent)"
  have s: "strip ''Maybe'' ''., '' = ''Maybe''" by (simp add: strip_def)
  have inf: "?inferred = map (\<lambda>claim. ''Maybe'') claims"
    by (simp add: assess_claims_def assess_claims_loop_eq s)
  then have "''Maybe'' \<in> set ?inferred" using a by (cases claims) simp_all
  moreover have "''Maybe'' \<notin> set labels" by (simp add: labels_def)
  ultimately have "\<not> (set ?inferred \<subseteq> set labels \<and> set groundtruth \<subseteq> set labels)" by blast
  moreover have "length ?inferred = length groundtruth" using a inf by simp
  ultimately show "confusion_matrix ?inferred groundtruth = Inl KeyError"
    by (intro confusion_matrix_KeyError)
qed

theorem confusion_matrix_partial_witness:
  "length [''True'', ''False''] \<noteq> length [''True'']
   \<and> confusion_matrix [''True'', ''False''] [''True''] = Inl AssertionError
   \<and> length [''True'', ''Maybe''] = length [''True'', ''NEE'']
   \<and> \<not> set [''True'', ''Maybe''] \<union> set [''True'', ''NEE''] \<subseteq> {''True'', ''False'', ''NEE''}
   \<and> confusion_matrix [''True'', ''Maybe''] [''True'', ''NEE''] = Inl KeyError
   \<and> confusion_matrix
        (fst (assess_claims (\<lambda>request. ''Maybe'') [''Aspirin inhibits the production of PGE2.''] []))
        [''False'']
      = Inl KeyError"
proof -
  have a: "length [''True'', ''False''] \<noteq> length [''True'']" by simp
  have b: "length [''True'', ''Maybe''] = length [''True'', ''NEE'']
     \<and> \<not> set [''True'', ''Maybe''] \<union> set [''True'', ''NEE''] \<subseteq> {''True'', ''False'', ''NEE''}"
    by simp
  have c: "[''Aspirin inhibits the production of PGE2.''] \<noteq> []
     \<and> length [''Aspirin inhibits the production of PGE2.''] = length [''False'']"
    by simp
  from a confusion_matrix_partial [of "[''True'', ''False'']" "[''True'']"]
  have "confusion_matrix [''True'', ''False''] [''True''] = Inl AssertionError" by blast
  moreover from b confusion_matrix_partial [of "[''True'', ''Maybe'']" "[''True'', ''NEE'']"]
  have "confusion_matrix [''True'', ''Maybe''] [''True'', ''NEE''] = Inl KeyError" by blast
  moreover from c confusion_matrix_partial
     [where claims = "[''Aspirin inhibits the production of PGE2.'']"
        and groundtruth = "[''False'']" and sent = "[]"]
  have "confusion_matrix
        (fst (assess_claims (\<lambda>request. ''Maybe'') [''Aspirin inhibits the production of PGE2.''] []))
        [''False'']
      = Inl KeyError" by blast
  ultimately show ?thesis using a b by blast
qed

text \<open>
  An element outside the three labels in lists of different lengths: the assertion comes
  first, and the exception is AssertionError, not KeyError.
\<close>

theorem confusion_matrix_key_error_counterexample:
  "''Maybe'' \<notin> {''True'', ''False'', ''NEE''}
   \<and> confusion_matrix [''Maybe''] [] = Inl AssertionError
   \<and> confusion_matrix [''Maybe''] [] \<noteq> Inl KeyError"
  by (simp add: confusion_matrix_def)

end
